theory Spec2Isabelle
  imports Main
begin

section \<open>JavaScript values\<close>

text \<open>
  The backend (\<^verbatim>\<open>src/unnamed/part_000\<close>) is an Express server whose handlers pass JSON
  values around.  A value that may be \<^verbatim>\<open>undefined\<close> is a \<open>json option\<close> with \<open>None\<close> for
  \<^verbatim>\<open>undefined\<close>; an object holds the properties whose value is defined, in insertion
  order.  Strings are lists of 8-bit characters (code units up to 0xFF).  A number is
  kept as what the handlers can observe of it: whether it is other than zero, and the
  string JavaScript converts it to (\<^verbatim>\<open>Number::toString\<close> is not computed here).
\<close>

datatype number = Number (nonzero: bool) (rendering: string)

datatype json =
    JNull
  | JBool bool
  | JNum number
  | JStr string
  | JArr "json list"
  | JObj "(string \<times> json) list"

type_synonym object = "(string \<times> json) list"

text \<open>Truthiness, as tested by \<^verbatim>\<open>if (v)\<close>, \<^verbatim>\<open>!v\<close> and \<^verbatim>\<open>v || d\<close>.\<close>

fun truthy :: "json \<Rightarrow> bool" where
  "truthy JNull = False"
| "truthy (JBool b) = b"
| "truthy (JNum n) = nonzero n"
| "truthy (JStr s) = (s \<noteq> [])"
| "truthy (JArr xs) = True"
| "truthy (JObj kvs) = True"

fun truthy_opt :: "json option \<Rightarrow> bool" where
  "truthy_opt None = False"
| "truthy_opt (Some v) = truthy v"

text \<open>\<^verbatim>\<open>v || d\<close>\<close>

fun js_or :: "json option \<Rightarrow> json \<Rightarrow> json" where
  "js_or None d = d"
| "js_or (Some v) d = (if truthy v then v else d)"

text \<open>
  Property read \<^verbatim>\<open>v.k\<close> on a value other than \<^verbatim>\<open>null\<close>, for the property names the
  handlers read (\<^verbatim>\<open>messages\<close>, \<^verbatim>\<open>text\<close>, \<^verbatim>\<open>facialExpression\<close>, \<^verbatim>\<open>animation\<close>): only objects
  have them.  Reading a property of \<^verbatim>\<open>null\<close> throws; the callers test for it.
\<close>

fun member :: "json \<Rightarrow> string \<Rightarrow> json option" where
  "member (JObj kvs) k = map_of kvs k"
| "member v k = None"

text \<open>Property write \<^verbatim>\<open>obj.k = v\<close>: replaces in place, or appends.\<close>

fun assign :: "object \<Rightarrow> string \<Rightarrow> json \<Rightarrow> object" where
  "assign [] k v = [(k, v)]"
| "assign ((k', v') # kvs) k v =
     (if k' = k then (k, v) # kvs else (k', v') # assign kvs k v)"

subsection \<open>Decimal rendering and string conversion\<close>

definition digit :: "nat \<Rightarrow> char" where
  "digit n = char_of (48 + n)"

function show_nat :: "nat \<Rightarrow> string" where
  "show_nat n = (if n < 10 then [digit n] else show_nat (n div 10) @ [digit (n mod 10)])"
  by pat_completeness auto
termination
  by (relation "measure id") auto

declare show_nat.simps [simp del]

text \<open>The characters \<open>show_nat\<close> produces.\<close>

definition is_digit :: "char \<Rightarrow> bool" where
  "is_digit c \<longleftrightarrow> 48 \<le> (of_char c :: nat) \<and> (of_char c :: nat) \<le> 57"

fun join_comma :: "string list \<Rightarrow> string" where
  "join_comma [] = []"
| "join_comma [x] = x"
| "join_comma (x # y # ys) = x @ CHR '','' # join_comma (y # ys)"

text \<open>
  String conversion, as in the template literal \<^verbatim>\<open>`lipsync_${message.text}`\<close>; \<open>None\<close> when
  it throws a \<^verbatim>\<open>TypeError\<close>.  An object is converted by its \<^verbatim>\<open>toString\<close> method: the
  inherited one answers \<^verbatim>\<open>[object Object]\<close>, while an own property of that name, never
  callable in a parsed value, leaves no way to a primitive.  An array joins the
  conversions of its elements with commas, \<^verbatim>\<open>null\<close> counting as the empty string, and
  throws when one of them does.
\<close>

fun to_string :: "json \<Rightarrow> string option" where
  "to_string JNull = Some ''null''"
| "to_string (JBool b) = Some (if b then ''true'' else ''false'')"
| "to_string (JNum n) = Some (rendering n)"
| "to_string (JStr s) = Some s"
| "to_string (JArr xs) =
     map_option join_comma
       (those (map (\<lambda>x. if x = JNull then Some [] else to_string x) xs))"
| "to_string (JObj kvs) =
     (case map_of kvs ''toString'' of None \<Rightarrow> Some ''[object Object]'' | Some f \<Rightarrow> None)"

subsection \<open>Base64\<close>

text \<open>\<^verbatim>\<open>data.toString("base64")\<close> on the bytes of a file.\<close>

definition b64chars :: string where
  "b64chars = ''ABCDEFGHIJKLMNOPQRSTUVWXYZabcdefghijklmnopqrstuvwxyz0123456789+/''"

definition b64digit :: "nat \<Rightarrow> char" where
  "b64digit n = b64chars ! (n mod 64)"

fun base64 :: "string \<Rightarrow> string" where
  "base64 [] = []"
| "base64 [a] =
     [b64digit (of_char a div 4), b64digit ((of_char a mod 4) * 16), CHR ''='', CHR ''='']"
| "base64 [a, b] =
     [b64digit (of_char a div 4),
      b64digit ((of_char a mod 4) * 16 + of_char b div 16),
      b64digit ((of_char b mod 16) * 4), CHR ''='']"
| "base64 (a # b # c # rest) =
     [b64digit (of_char a div 4),
      b64digit ((of_char a mod 4) * 16 + of_char b div 16),
      b64digit ((of_char b mod 16) * 4 + of_char c div 64),
      b64digit (of_char c mod 64)] @ base64 rest"

section \<open>The outside world and the server state\<close>

text \<open>
  Everything a request obtains from outside the process is an answer of the \<open>world\<close>:
  the file system as \<^verbatim>\<open>fs.readFile\<close> sees it (\<open>None\<close>: the read rejects), \<^verbatim>\<open>JSON.parse\<close>
  (\<open>None\<close>: it throws), the completion endpoint (\<open>None\<close>: the call rejects or carries no
  string content), the speech endpoint for the i-th message, the exit status of a
  subprocess command, and the transcription endpoint.  Every such interaction is
  recorded as an \<open>effect\<close>.
\<close>

datatype tts_outcome = TtsRejected | TtsNotOk | TtsPiped | TtsPipeFailed

record world =
  readFile :: "string \<Rightarrow> string option"
  jsonParse :: "string \<Rightarrow> json option"
  completion :: "string \<Rightarrow> string option"
  speech :: "nat \<Rightarrow> json option \<Rightarrow> tts_outcome"
  exec :: "string \<Rightarrow> bool"
  stt :: "string \<Rightarrow> json option"

datatype effect =
    CompletionCall string
  | SpeechCall "json option"
  | TranscribeCall string
  | WriteFile string
  | ReadFile string
  | Exec string

fun is_network :: "effect \<Rightarrow> bool" where
  "is_network (CompletionCall m) = True"
| "is_network (SpeechCall t) = True"
| "is_network (TranscribeCall a) = True"
| "is_network e = False"

fun is_exec :: "effect \<Rightarrow> bool" where
  "is_exec (Exec c) = True"
| "is_exec e = False"

fun is_write :: "effect \<Rightarrow> bool" where
  "is_write (WriteFile p) = True"
| "is_write e = False"

text \<open>
  The cache is a \<^verbatim>\<open>NodeCache\<close> with \<^verbatim>\<open>stdTTL: 3600\<close>: \<open>set\<close> stamps the entry with the time
  of the write plus one hour (in milliseconds), \<open>get\<close> answers \<^verbatim>\<open>undefined\<close> for a missing
  entry and for one whose stamp lies before the current time.
\<close>

type_synonym cache = "string \<Rightarrow> (nat \<times> json) option"

definition stdTTL :: nat where
  "stdTTL = 3600"

definition cache_get :: "cache \<Rightarrow> nat \<Rightarrow> string \<Rightarrow> json option" where
  "cache_get c now k =
     (case c k of None \<Rightarrow> None | Some (t, v) \<Rightarrow> if t < now then None else Some v)"

definition cache_set :: "cache \<Rightarrow> nat \<Rightarrow> string \<Rightarrow> json \<Rightarrow> cache" where
  "cache_set c now k v = c(k \<mapsto> (now + stdTTL * 1000, v))"

record fallback =
  noApiKey :: json
  error :: json

record server =
  lemonfoxApiKey :: string
  fallbackMessages :: fallback
  cache :: cache

datatype reply = Sent nat json | Threw

record result =
  reply :: reply
  effects :: "effect list"
  state :: server

text \<open>\<^verbatim>\<open>res.send(body)\<close> answers with status 200, \<^verbatim>\<open>res.status(n).send(body)\<close> with \<open>n\<close>.\<close>

definition send :: "json \<Rightarrow> reply" where
  "send body = Sent 200 body"

definition audioFileToBase64 :: "world \<Rightarrow> string \<Rightarrow> string option" where
  "audioFileToBase64 w file = map_option base64 (readFile w file)"

definition readJsonTranscript :: "world \<Rightarrow> string \<Rightarrow> json option" where
  "readJsonTranscript w file =
     (case readFile w file of None \<Rightarrow> None | Some data \<Rightarrow> jsonParse w data)"

text \<open>
  The fallback lists as the module creates them, and after the start-up block has
  loaded their audio and timing data (a failed read leaves the empty string and
  \<^verbatim>\<open>undefined\<close>).
\<close>

definition fallback_entry :: "string \<Rightarrow> string \<Rightarrow> json option \<Rightarrow> string \<Rightarrow> string \<Rightarrow> json" where
  "fallback_entry t a l f an =
     JArr [JObj ([(''text'', JStr t), (''audio'', JStr a)]
                 @ (case l of None \<Rightarrow> [] | Some v \<Rightarrow> [(''lipsync'', v)])
                 @ [(''facialExpression'', JStr f), (''animation'', JStr an)])]"

definition noApiKey_text :: string where
  "noApiKey_text = ''Please my dear, don't forget to add your Lemonfox API key!''"

definition error_text :: string where
  "error_text = ''Oops, something went wrong! Can you try again, dear?''"

definition fallbackMessages0 :: fallback where
  "fallbackMessages0 =
     \<lparr>noApiKey = fallback_entry noApiKey_text [] (Some (JObj [])) ''angry'' ''Angry'',
      error = fallback_entry error_text [] (Some (JObj [])) ''sad'' ''Crying''\<rparr>"

definition preload :: "world \<Rightarrow> fallback" where
  "preload w =
     (let a = (case audioFileToBase64 w ''audios/api_0.wav'' of None \<Rightarrow> [] | Some x \<Rightarrow> x);
          l = readJsonTranscript w ''audios/api_0.json''
      in \<lparr>noApiKey = fallback_entry noApiKey_text a l ''angry'' ''Angry'',
          error = fallback_entry error_text a l ''sad'' ''Crying''\<rparr>)"

definition startup :: "string \<Rightarrow> world \<Rightarrow> server" where
  "startup key w = \<lparr>lemonfoxApiKey = key, fallbackMessages = preload w, cache = Map.empty\<rparr>"

section \<open>POST /chat\<close>

subsection \<open>Cache key and reply sanitisation\<close>

definition is_alnum :: "char \<Rightarrow> bool" where
  "is_alnum c =
     (let n = (of_char c :: nat)
      in (97 \<le> n \<and> n \<le> 122) \<or> (65 \<le> n \<and> n \<le> 90) \<or> (48 \<le> n \<and> n \<le> 57))"

text \<open>\<^verbatim>\<open>userMessage.replace(/[^a-zA-Z0-9]/g, '_')\<close>\<close>

definition sanitize :: "string \<Rightarrow> string" where
  "sanitize userMessage = map (\<lambda>c. if is_alnum c then c else CHR ''_'') userMessage"

definition cacheKey :: "string \<Rightarrow> string" where
  "cacheKey userMessage = ''response_'' @ sanitize userMessage"

text \<open>
  \<^verbatim>\<open>rawContent.replace(/```json\n?|\n?```/g, '')\<close>: scanning from the left, at each position
  the first alternative is tried before the second, and the text after a match is
  scanned on.
\<close>

definition fence :: string where
  "fence = [CHR 0x60, CHR 0x60, CHR 0x60]"

function strip_fences :: "string \<Rightarrow> string" where
  "strip_fences s =
     (if s = [] then []
      else if take 7 s = fence @ ''json'' then
        strip_fences (if take 1 (drop 7 s) = [CHR 0x0A] then drop 8 s else drop 7 s)
      else if take 4 s = CHR 0x0A # fence then strip_fences (drop 4 s)
      else if take 3 s = fence then strip_fences (drop 3 s)
      else hd s # strip_fences (tl s))"
  by pat_completeness auto
termination
  by (relation "measure length") (auto simp: fence_def)

declare strip_fences.simps [simp del]

text \<open>\<^verbatim>\<open>.trim()\<close>: the white space and line terminators among the 8-bit code units.\<close>

definition is_space :: "char \<Rightarrow> bool" where
  "is_space c =
     (let n = (of_char c :: nat) in (9 \<le> n \<and> n \<le> 13) \<or> n = 32 \<or> n = 160)"

definition trim :: "string \<Rightarrow> string" where
  "trim s = rev (dropWhile is_space (rev (dropWhile is_space s)))"

text \<open>\<^verbatim>\<open>rawContent.replace(/[\x00-\x1F\x7F-\x9F]/g, '')\<close>\<close>

definition is_control :: "char \<Rightarrow> bool" where
  "is_control c = (let n = (of_char c :: nat) in n \<le> 31 \<or> (127 \<le> n \<and> n \<le> 159))"

definition strip_control :: "string \<Rightarrow> string" where
  "strip_control s = filter (\<lambda>c. \<not> is_control c) s"

definition clean :: "string \<Rightarrow> string" where
  "clean rawContent = strip_control (trim (strip_fences rawContent))"

subsection \<open>The scripted greeting\<close>

definition greeting_text :: string where
  "greeting_text = ''Hey dear... How was your day?''"

definition greeting :: "world \<Rightarrow> json" where
  "greeting w =
     JArr [JObj ([(''text'', JStr greeting_text),
                  (''audio'', JStr (case audioFileToBase64 w ''audios/intro_0.wav'' of
                                     None \<Rightarrow> [] | Some a \<Rightarrow> a))]
                 @ (case readJsonTranscript w ''audios/intro_0.json'' of
                      None \<Rightarrow> [] | Some l \<Rightarrow> [(''lipsync'', l)])
                 @ [(''facialExpression'', JStr ''smile''),
                    (''animation'', JStr ''Talking_1'')])]"

subsection \<open>Parsing and validating the completion reply\<close>

text \<open>
  The inner \<^verbatim>\<open>try\<close>: \<^verbatim>\<open>JSON.parse\<close>, then the normalisation to an array.  \<open>None\<close> is the
  \<^verbatim>\<open>catch (parseError)\<close> branch, reached when the parse throws and when the parsed value
  is \<^verbatim>\<open>null\<close> (reading \<^verbatim>\<open>messages.messages\<close> throws).
\<close>

definition parse_reply :: "world \<Rightarrow> string \<Rightarrow> json option" where
  "parse_reply w rawContent =
     (case jsonParse w rawContent of
        None \<Rightarrow> None
      | Some messages \<Rightarrow>
          if messages = JNull then None
          else if truthy_opt (member messages ''messages'') then member messages ''messages''
          else (case messages of JArr xs \<Rightarrow> Some messages | _ \<Rightarrow> Some (JArr [messages])))"

text \<open>
  The \<^verbatim>\<open>messages.map(msg => ({...}))\<close> of lines 231 to 237.  \<open>None\<close>: a \<^verbatim>\<open>TypeError\<close>
  (\<^verbatim>\<open>messages\<close> is no array, or an entry is \<^verbatim>\<open>null\<close>), caught by the outer \<^verbatim>\<open>catch\<close>.
\<close>

definition validate_entry :: "json \<Rightarrow> object option" where
  "validate_entry msg =
     (if msg = JNull then None
      else Some [(''text'', js_or (member msg ''text'') (JStr ''Oops, something went wrong!'')),
                 (''facialExpression'', js_or (member msg ''facialExpression'') (JStr ''default'')),
                 (''animation'', js_or (member msg ''animation'') (JStr ''Idle'')),
                 (''audio'', JStr []),
                 (''lipsync'', JObj [])])"

fun validate :: "json \<Rightarrow> object list option" where
  "validate (JArr xs) = those (map validate_entry xs)"
| "validate v = None"

subsection \<open>Speech synthesis, one call per message\<close>

definition mp3Path :: "nat \<Rightarrow> string" where
  "mp3Path index = ''audios/message_'' @ show_nat index @ ''.mp3''"

definition wavPath :: "nat \<Rightarrow> string" where
  "wavPath index = ''audios/message_'' @ show_nat index @ ''.wav''"

definition jsonPath :: "nat \<Rightarrow> string" where
  "jsonPath index = ''audios/message_'' @ show_nat index @ ''.json''"

text \<open>
  One \<^verbatim>\<open>ttsPromises\<close> callback: the request is always sent; the file is opened for
  writing once the answer is ok; the promise fulfils when the body has been piped.
\<close>

definition tts :: "world \<Rightarrow> nat \<Rightarrow> object \<Rightarrow> bool \<times> effect list" where
  "tts w i message =
     (let fileName = mp3Path i; textInput = map_of message ''text''
      in case speech w i textInput of
           TtsRejected \<Rightarrow> (False, [SpeechCall textInput])
         | TtsNotOk \<Rightarrow> (False, [SpeechCall textInput])
         | TtsPipeFailed \<Rightarrow> (False, [SpeechCall textInput, WriteFile fileName])
         | TtsPiped \<Rightarrow> (True, [SpeechCall textInput, WriteFile fileName]))"

definition ttsAll :: "world \<Rightarrow> object list \<Rightarrow> (bool \<times> effect list) list" where
  "ttsAll w messages = map (\<lambda>(i, message). tts w i message) (enumerate 0 messages)"

text \<open>
  Lines 177 to 264: completion call, sanitisation, parse, validation and speech
  synthesis.  \<open>Some messages\<close> when \<^verbatim>\<open>Promise.all(ttsPromises)\<close> fulfils; \<open>None\<close> on every
  path into one of the two \<^verbatim>\<open>catch\<close> blocks.  Effects are listed message by message.
\<close>

definition prepare :: "world \<Rightarrow> string \<Rightarrow> object list option \<times> effect list" where
  "prepare w userMessage =
     (case completion w userMessage of
        None \<Rightarrow> (None, [CompletionCall userMessage])
      | Some rawContent \<Rightarrow>
          (case parse_reply w (clean rawContent) of
             None \<Rightarrow> (None, [CompletionCall userMessage])
           | Some parsed \<Rightarrow>
               (case validate parsed of
                  None \<Rightarrow> (None, [CompletionCall userMessage])
                | Some messages \<Rightarrow>
                    (let ttsResults = ttsAll w messages;
                         effs = CompletionCall userMessage # concat (map snd ttsResults)
                     in if list_all fst ttsResults then (Some messages, effs)
                        else (None, effs)))))"

subsection \<open>Lip-sync, one task per message\<close>

definition ffmpeg_cmd :: "nat \<Rightarrow> string" where
  "ffmpeg_cmd index = ''ffmpeg -y -i '' @ mp3Path index @ '' '' @ wavPath index"

definition rhubarb_cmd :: "nat \<Rightarrow> string" where
  "rhubarb_cmd index =
     ''bin'' @ CHR 0x5C # ''rhubarb.exe -f json -o '' @ jsonPath index @ '' '' @ wavPath index
       @ '' -r phonetic''"

text \<open>\<^verbatim>\<open>lipSyncMessage\<close>: the second command runs only when the first exits with success.\<close>

definition lipSyncMessage :: "world \<Rightarrow> nat \<Rightarrow> bool \<times> effect list" where
  "lipSyncMessage w index =
     (if exec w (ffmpeg_cmd index)
      then (exec w (rhubarb_cmd index), [Exec (ffmpeg_cmd index), Exec (rhubarb_cmd index)])
      else (False, [Exec (ffmpeg_cmd index)]))"

text \<open>
  The template literal of line 267; \<open>None\<close> when the conversion of \<^verbatim>\<open>message.text\<close> throws.
\<close>

definition lipSyncCacheKey :: "object \<Rightarrow> string option" where
  "lipSyncCacheKey message =
     map_option (\<lambda>t. ''lipsync_'' @ t)
       (case map_of message ''text'' of None \<Rightarrow> Some ''undefined'' | Some t \<Rightarrow> to_string t)"

text \<open>
  The result of one \<^verbatim>\<open>lipSyncPromises\<close> callback: the message (\<open>None\<close>: the promise
  rejects), its effects, and its writes to the cache.
\<close>

type_synonym task = "object option \<times> effect list \<times> (string \<times> json) list"

text \<open>The \<^verbatim>\<open>catch (lipSyncError)\<close> block, after the effects \<open>effs\<close> of the \<^verbatim>\<open>try\<close>.\<close>

definition lipSyncCatch :: "world \<Rightarrow> nat \<Rightarrow> object \<Rightarrow> effect list \<Rightarrow> task" where
  "lipSyncCatch w index message effs =
     (case audioFileToBase64 w (mp3Path index) of
        None \<Rightarrow> (None, effs @ [ReadFile (mp3Path index)], [])
      | Some a \<Rightarrow>
          (Some (assign (assign message ''audio'' (JStr a)) ''lipsync'' (JObj [])),
           effs @ [ReadFile (mp3Path index)], []))"

text \<open>The \<^verbatim>\<open>else\<close> branch: no usable cache entry under the key.\<close>

definition lipSyncFresh :: "world \<Rightarrow> nat \<Rightarrow> object \<Rightarrow> string \<Rightarrow> task" where
  "lipSyncFresh w index message key =
     (case lipSyncMessage w index of
        (False, effs) \<Rightarrow> lipSyncCatch w index message effs
      | (True, effs) \<Rightarrow>
          (case audioFileToBase64 w (mp3Path index) of
             None \<Rightarrow> lipSyncCatch w index message (effs @ [ReadFile (mp3Path index)])
           | Some a \<Rightarrow>
               (case readJsonTranscript w (jsonPath index) of
                  None \<Rightarrow>
                    lipSyncCatch w index message
                      (effs @ [ReadFile (mp3Path index), ReadFile (jsonPath index)])
                | Some l \<Rightarrow>
                    (Some (assign (assign message ''audio'' (JStr a)) ''lipsync'' l),
                     effs @ [ReadFile (mp3Path index), ReadFile (jsonPath index)],
                     [(key, l)]))))"

text \<open>
  One callback.  It runs up to its first \<^verbatim>\<open>await\<close> as soon as \<^verbatim>\<open>map\<close> calls it, so every
  message looks the cache up as it is when the stage starts.  The key is computed
  outside the \<^verbatim>\<open>try\<close> of line 273: when that throws, the promise rejects before any
  lookup, subprocess or read.
\<close>

definition lipSyncOne :: "cache \<Rightarrow> nat \<Rightarrow> world \<Rightarrow> nat \<Rightarrow> object \<Rightarrow> task" where
  "lipSyncOne c now w index message =
     (case lipSyncCacheKey message of
        None \<Rightarrow> (None, [], [])
      | Some key \<Rightarrow>
          (case cache_get c now key of
             None \<Rightarrow> lipSyncFresh w index message key
           | Some cachedLipSync \<Rightarrow>
               if truthy cachedLipSync then
                 (case audioFileToBase64 w (mp3Path index) of
                    None \<Rightarrow> (None, [ReadFile (mp3Path index)], [])
                  | Some a \<Rightarrow>
                      (Some (assign (assign message ''lipsync'' cachedLipSync) ''audio''
                               (JStr a)),
                       [ReadFile (mp3Path index)], []))
               else lipSyncFresh w index message key))"

definition lipSyncAll :: "cache \<Rightarrow> nat \<Rightarrow> world \<Rightarrow> object list \<Rightarrow> task list" where
  "lipSyncAll c now w messages =
     map (\<lambda>(index, message). lipSyncOne c now w index message) (enumerate 0 messages)"

definition cache_writes :: "cache \<Rightarrow> nat \<Rightarrow> (string \<times> json) list \<Rightarrow> cache" where
  "cache_writes c now kvs = foldl (\<lambda>c' (k, v). cache_set c' now k v) c kvs"

text \<open>
  Lines 266 to 287: every task runs to its end, the cache takes the writes of those that
  got that far, and \<^verbatim>\<open>Promise.all\<close> fulfils when none has rejected.
\<close>

definition postprocess ::
  "cache \<Rightarrow> nat \<Rightarrow> world \<Rightarrow> object list \<Rightarrow> object list option \<times> effect list \<times> cache" where
  "postprocess c now w messages =
     (let tasks = lipSyncAll c now w messages
      in (those (map fst tasks),
          concat (map (\<lambda>t. fst (snd t)) tasks),
          cache_writes c now (concat (map (\<lambda>t. snd (snd t)) tasks))))"

subsection \<open>The handler\<close>

definition failed :: "server \<Rightarrow> effect list \<Rightarrow> cache \<Rightarrow> result" where
  "failed s effs c =
     \<lparr>reply = Sent 500 (JObj [(''messages'', error (fallbackMessages s))]),
      effects = effs, state = s\<lparr>cache := c\<rparr>\<rparr>"

text \<open>The outer \<^verbatim>\<open>try\<close> of lines 177 to 293.\<close>

definition pipeline :: "server \<Rightarrow> nat \<Rightarrow> world \<Rightarrow> string \<Rightarrow> result" where
  "pipeline s now w userMessage =
     (case prepare w userMessage of
        (None, effs) \<Rightarrow> failed s effs (cache s)
      | (Some validated, effs) \<Rightarrow>
          (case postprocess (cache s) now w validated of
             (None, effs', c) \<Rightarrow> failed s (effs @ effs') c
           | (Some messages, effs', c) \<Rightarrow>
               \<lparr>reply = send (JObj [(''messages'', JArr (map JObj messages))]),
                effects = effs @ effs',
                state = s\<lparr>cache := cache_set c now (cacheKey userMessage)
                                     (JArr (map JObj messages))\<rparr>\<rparr>))"

text \<open>Lines 159 to 293, after a cache miss.\<close>

definition uncached :: "server \<Rightarrow> nat \<Rightarrow> world \<Rightarrow> string \<Rightarrow> result" where
  "uncached s now w userMessage =
     (if userMessage = [] then
        \<lparr>reply = send (JObj [(''messages'', greeting w)]),
         effects = [ReadFile ''audios/intro_0.wav'', ReadFile ''audios/intro_0.json''],
         state = s\<lparr>cache := cache_set (cache s) now (cacheKey userMessage) (greeting w)\<rparr>\<rparr>
      else if lemonfoxApiKey s = ''-'' then
        \<lparr>reply = send (JObj [(''messages'', noApiKey (fallbackMessages s))]),
         effects = [], state = s\<rparr>
      else pipeline s now w userMessage)"

text \<open>
  The handler.  The request body carries a string under \<^verbatim>\<open>message\<close>, or nothing
  (\<open>None\<close>).  Line 152 calls \<^verbatim>\<open>userMessage.replace\<close> before any test and outside the
  \<^verbatim>\<open>try\<close>, so on an absent message the handler throws and sends nothing.
\<close>

definition chat :: "server \<Rightarrow> nat \<Rightarrow> world \<Rightarrow> string option \<Rightarrow> result" where
  "chat s now w message =
     (case message of
        None \<Rightarrow> \<lparr>reply = Threw, effects = [], state = s\<rparr>
      | Some userMessage \<Rightarrow>
          (case cache_get (cache s) now (cacheKey userMessage) of
             None \<Rightarrow> uncached s now w userMessage
           | Some cachedResponse \<Rightarrow>
               if truthy cachedResponse then
                 \<lparr>reply = send (JObj [(''messages'', cachedResponse)]),
                  effects = [], state = s\<rparr>
               else uncached s now w userMessage))"

section \<open>POST /transcribe\<close>

definition transcribe :: "server \<Rightarrow> world \<Rightarrow> string option \<Rightarrow> result" where
  "transcribe s w audioBase64 =
     (let missing = \<lparr>reply = Sent 400 (JObj [(''error'', JStr ''Missing audio or API key'')]),
                     effects = [], state = s\<rparr>;
          broken = (\<lambda>a. \<lparr>reply = Sent 500 (JObj [(''error'', JStr ''Transcription failed'')]),
                         effects = [TranscribeCall a], state = s\<rparr>)
      in case audioBase64 of
           None \<Rightarrow> missing
         | Some a \<Rightarrow>
             if a = [] \<or> lemonfoxApiKey s = ''-'' then missing
             else (case stt w a of
                     None \<Rightarrow> broken a
                   | Some data \<Rightarrow>
                       if data = JNull then broken a
                       else \<lparr>reply = send (JObj (case member data ''text'' of
                                                  None \<Rightarrow> [] | Some t \<Rightarrow> [(''text'', t)])),
                             effects = [TranscribeCall a], state = s\<rparr>))"

section \<open>Sequences of requests\<close>

text \<open>
  The server handles one request after the other, each at the time it arrives and in
  the world it meets; the state is handed from one request to the next.
\<close>

datatype request = Chat "string option" | Transcribe "string option"

type_synonym event = "nat \<times> world \<times> request"

fun handle :: "server \<Rightarrow> event \<Rightarrow> result" where
  "handle s (now, w, Chat message) = chat s now w message"
| "handle s (now, w, Transcribe audioBase64) = transcribe s w audioBase64"

definition run :: "server \<Rightarrow> event list \<Rightarrow> server" where
  "run s evs = foldl (\<lambda>s' ev. state (handle s' ev)) s evs"

text \<open>
  A message list that is the scripted greeting: exactly one message, with the greeting
  text and the expression "smile".  A server is \<open>greeted\<close> when the cache entry of the
  empty message, if there is one, is such a list.
\<close>

fun greets :: "json \<Rightarrow> bool" where
  "greets (JArr [m]) \<longleftrightarrow>
     member m ''text'' = Some (JStr greeting_text)
     \<and> member m ''facialExpression'' = Some (JStr ''smile'')"
| "greets v \<longleftrightarrow> False"

definition greeted :: "server \<Rightarrow> bool" where
  "greeted s \<longleftrightarrow> (case cache s ''response_'' of None \<Rightarrow> True | Some (e, v) \<Rightarrow> greets v)"

section \<open>Worlds and states for the concrete checks\<close>

text \<open>A world in which every outside interaction fails.\<close>

definition silent :: world where
  "silent = \<lparr>readFile = (\<lambda>p. None), jsonParse = (\<lambda>d. None), completion = (\<lambda>m. None),
             speech = (\<lambda>i t. TtsRejected), exec = (\<lambda>c. False), stt = (\<lambda>a. None)\<rparr>"

text \<open>A world whose completion endpoint answers with text that is no JSON.\<close>

definition babbling :: world where
  "babbling = silent\<lparr>completion := (\<lambda>m. Some ''sorry, no idea'')\<rparr>"

text \<open>
  The reply \<^verbatim>\<open>[{"text":"Hi"}]\<close> and a reply with a second entry, "Yo".
\<close>

definition quoted :: "string \<Rightarrow> string" where
  "quoted s = CHR 0x22 # s @ [CHR 0x22]"

definition hi_reply :: string where
  "hi_reply = ''[{'' @ quoted ''text'' @ '':'' @ quoted ''Hi'' @ ''}]''"

definition duet_reply :: string where
  "duet_reply = ''[{'' @ quoted ''text'' @ '':'' @ quoted ''Hi'' @ ''},{''
                 @ quoted ''text'' @ '':'' @ quoted ''Yo'' @ ''}]''"

text \<open>
  A world in which the completion endpoint answers with the first reply, parsed as one
  entry with the text "Hi"; speech synthesis succeeds; every subprocess fails; and the
  audio file of message 0 holds three bytes.
\<close>

definition chatty :: world where
  "chatty =
     \<lparr>readFile = (\<lambda>p. if p = ''audios/message_0.mp3'' then Some ''abc'' else None),
      jsonParse = (\<lambda>d. if d = hi_reply then Some (JArr [JObj [(''text'', JStr ''Hi'')]]) else None),
      completion = (\<lambda>m. Some hi_reply),
      speech = (\<lambda>i t. TtsPiped),
      exec = (\<lambda>c. False),
      stt = (\<lambda>a. None)\<rparr>"

text \<open>The validated entry and the message list that world leads to.\<close>

definition hi_validated :: object where
  "hi_validated = [(''text'', JStr ''Hi''), (''facialExpression'', JStr ''default''),
                 (''animation'', JStr ''Idle''), (''audio'', JStr []),
                 (''lipsync'', JObj [])]"

definition hi_messages :: json where
  "hi_messages =
     JArr [JObj [(''text'', JStr ''Hi''), (''facialExpression'', JStr ''default''),
                 (''animation'', JStr ''Idle''), (''audio'', JStr ''YWJj''),
                 (''lipsync'', JObj [])]]"

text \<open>
  The same world, except that the speech endpoint's ok answer had an empty body: the
  audio file of message 0 can be read and holds no byte.
\<close>

definition hollow :: world where
  "hollow = chatty\<lparr>readFile := (\<lambda>p. if p = ''audios/message_0.mp3'' then Some [] else None)\<rparr>"

text \<open>
  A world with two entries, "Hi" and "Yo", whose audio files can both be read and whose
  subprocesses all fail; and a server whose cache already holds timing data for "Hi".
\<close>

definition yo_validated :: object where
  "yo_validated = [(''text'', JStr ''Yo''), (''facialExpression'', JStr ''default''),
                   (''animation'', JStr ''Idle''), (''audio'', JStr []),
                   (''lipsync'', JObj [])]"

definition duet :: world where
  "duet =
     \<lparr>readFile = (\<lambda>p. if p = ''audios/message_0.mp3'' then Some ''abc''
                       else if p = ''audios/message_1.mp3'' then Some ''de'' else None),
      jsonParse = (\<lambda>d. if d = duet_reply
                        then Some (JArr [JObj [(''text'', JStr ''Hi'')],
                                         JObj [(''text'', JStr ''Yo'')]])
                        else None),
      completion = (\<lambda>m. Some duet_reply),
      speech = (\<lambda>i t. TtsPiped),
      exec = (\<lambda>c. False),
      stt = (\<lambda>a. None)\<rparr>"



section \<open>Properties\<close>

subsection \<open>Cache keys, frames and what persists\<close>

lemma cacheKey_prefix: "take 9 (cacheKey m) = ''response_''"
  by (simp add: cacheKey_def)

lemma lipSyncCacheKey_prefix: "lipSyncCacheKey message = Some k \<Longrightarrow> take 8 k = ''lipsync_''"
  by (auto simp: lipSyncCacheKey_def)

lemma response_key_not_lipsync: "take 9 k = ''response_'' \<Longrightarrow> take 8 k \<noteq> ''lipsync_''"
proof
  assume a: "take 9 k = ''response_''" and b: "take 8 k = ''lipsync_''"
  have "take 1 (take 9 k) = take 1 (take 8 k)" by (simp add: min_def)
  with a b show False by simp
qed

lemma cacheKey_Nil: "cacheKey [] = ''response_''"
  by (simp add: cacheKey_def sanitize_def)

lemma cacheKey_length: "length (cacheKey m) = 9 + length m"
  by (simp add: cacheKey_def sanitize_def)

lemma cacheKey_eq_Nil_iff:
  assumes "cacheKey m = cacheKey m'"
  shows "m = [] \<longleftrightarrow> m' = []"
proof -
  have "length (cacheKey m) = length (cacheKey m')" by (simp only: assms)
  then have "length m = length m'" by (simp only: cacheKey_length)
  then show ?thesis by (cases m; cases m') simp_all
qed

lemma cache_writes_other:
  "k \<notin> fst ` set kvs \<Longrightarrow> cache_writes c now kvs k = c k"
  unfolding cache_writes_def
  by (induction kvs arbitrary: c) (auto simp: cache_set_def)

lemma lipSyncCatch_writes: "snd (snd (lipSyncCatch w i m effs)) = []"
  by (simp add: lipSyncCatch_def split: option.splits)

lemma lipSyncFresh_writes:
  "kv \<in> set (snd (snd (lipSyncFresh w i m key))) \<Longrightarrow> fst kv = key"
  by (auto simp: lipSyncFresh_def lipSyncCatch_writes split: option.splits prod.splits bool.splits)

lemma lipSyncOne_writes:
  "kv \<in> set (snd (snd (lipSyncOne c now w i m))) \<Longrightarrow> lipSyncCacheKey m = Some (fst kv)"
  by (auto simp: lipSyncOne_def dest: lipSyncFresh_writes split: option.splits if_splits)

lemma postprocess_cache_frame:
  assumes "take 8 k \<noteq> ''lipsync_''"
  shows "snd (snd (postprocess c now w messages)) k = c k"
proof -
  have "k \<notin> fst ` set (concat (map (\<lambda>t. snd (snd t)) (lipSyncAll c now w messages)))"
  proof
    assume "k \<in> fst ` set (concat (map (\<lambda>t. snd (snd t)) (lipSyncAll c now w messages)))"
    then obtain kv i m where "kv \<in> set (snd (snd (lipSyncOne c now w i m)))" "k = fst kv"
      by (auto simp: lipSyncAll_def)
    then have "lipSyncCacheKey m = Some k" by (simp add: lipSyncOne_writes)
    with assms show False by (simp add: lipSyncCacheKey_prefix)
  qed
  then show ?thesis by (simp add: postprocess_def Let_def cache_writes_other)
qed

lemma pipeline_cache_frame:
  assumes "take 8 k \<noteq> ''lipsync_''" and "k \<noteq> cacheKey userMessage"
  shows "cache (state (pipeline s now w userMessage)) k = cache s k"
proof (cases "prepare w userMessage")
  case (Pair v effs)
  show ?thesis
  proof (cases v)
    case None
    with Pair show ?thesis by (simp add: pipeline_def failed_def)
  next
    case (Some validated)
    obtain out effs' c where pp: "postprocess (cache s) now w validated = (out, effs', c)"
      by (cases "postprocess (cache s) now w validated") auto
    have "c k = cache s k"
      using postprocess_cache_frame [OF assms(1), of "cache s" now w validated] pp by simp
    with Pair Some pp assms(2) show ?thesis
      by (cases out) (simp_all add: pipeline_def failed_def cache_set_def)
  qed
qed

lemma pipeline_static:
  "lemonfoxApiKey (state (pipeline s now w m)) = lemonfoxApiKey s
   \<and> fallbackMessages (state (pipeline s now w m)) = fallbackMessages s"
  by (auto simp: pipeline_def failed_def split: prod.splits option.splits)

lemma chat_static:
  "lemonfoxApiKey (state (chat s now w m)) = lemonfoxApiKey s
   \<and> fallbackMessages (state (chat s now w m)) = fallbackMessages s"
  by (auto simp: chat_def uncached_def pipeline_static split: option.splits)

lemma handle_static:
  "lemonfoxApiKey (state (handle s ev)) = lemonfoxApiKey s
   \<and> fallbackMessages (state (handle s ev)) = fallbackMessages s"
proof (cases ev)
  case (fields now w r)
  then show ?thesis
    by (cases r) (auto simp: chat_static transcribe_def Let_def split: option.splits)
qed

lemma run_static:
  "lemonfoxApiKey (run s evs) = lemonfoxApiKey s
   \<and> fallbackMessages (run s evs) = fallbackMessages s"
  unfolding run_def
  by (induction evs arbitrary: s) (simp_all add: handle_static)

lemma uncached_cache_frame:
  assumes "take 8 k \<noteq> ''lipsync_''" and "k \<noteq> cacheKey userMessage"
  shows "cache (state (uncached s now w userMessage)) k = cache s k"
proof (cases "userMessage = []")
  case True
  with assms(2) show ?thesis by (simp add: uncached_def cache_set_def)
next
  case False
  then show ?thesis
    by (simp add: uncached_def pipeline_cache_frame [OF assms])
qed

lemma chat_hit:
  assumes "cache s (cacheKey m) = Some (e, v)" and "truthy v" and "now \<le> e"
  shows "chat s now w (Some m) = \<lparr>reply = send (JObj [(''messages'', v)]), effects = [], state = s\<rparr>"
  using assms by (simp add: chat_def cache_get_def)

lemma chat_entry_persist:
  assumes "cache s k = Some (e, v)" and "truthy v" and "take 9 k = ''response_''" and "now \<le> e"
  shows "cache (state (chat s now w m)) k = Some (e, v)"
proof (cases m)
  case None
  with assms show ?thesis by (simp add: chat_def)
next
  case (Some userMessage)
  show ?thesis
  proof (cases "k = cacheKey userMessage")
    case True
    with assms Some show ?thesis by (simp add: chat_hit)
  next
    case False
    have "cache (state (uncached s now w userMessage)) k = cache s k"
      using uncached_cache_frame [OF response_key_not_lipsync [OF assms(3)] False] .
    with assms Some show ?thesis
      by (simp add: chat_def split: option.splits)
  qed
qed

lemma handle_entry_persist:
  assumes "cache s k = Some (e, v)" and "truthy v" and "take 9 k = ''response_''" and "fst ev \<le> e"
  shows "cache (state (handle s ev)) k = Some (e, v)"
proof (cases ev)
  case (fields now w r)
  with assms show ?thesis
    by (cases r) (auto simp: chat_entry_persist transcribe_def Let_def split: option.splits)
qed

lemma run_entry_persist:
  assumes "cache s k = Some (e, v)" and "truthy v" and "take 9 k = ''response_''"
    and "list_all (\<lambda>ev. fst ev \<le> e) evs"
  shows "cache (run s evs) k = Some (e, v)"
  using assms unfolding run_def
  by (induction evs arbitrary: s) (simp_all add: handle_entry_persist)


lemma cacheKey_eq_response_iff: "cacheKey m = ''response_'' \<longleftrightarrow> m = []"
  using cacheKey_eq_Nil_iff [of m "[]"] by (auto simp: cacheKey_Nil)

lemma chat_noKey_frame:
  assumes "lemonfoxApiKey s = ''-''" and "k \<noteq> ''response_''"
  shows "cache (state (chat s now w m)) k = cache s k"
proof (cases m)
  case None
  then show ?thesis by (simp add: chat_def)
next
  case (Some userMessage)
  have "cache (state (uncached s now w userMessage)) k = cache s k"
    using assms by (simp add: uncached_def cache_set_def cacheKey_Nil)
  with Some show ?thesis by (simp add: chat_def split: option.splits)
qed

lemma handle_noKey_frame:
  assumes "lemonfoxApiKey s = ''-''" and "k \<noteq> ''response_''"
  shows "cache (state (handle s ev)) k = cache s k"
proof (cases ev)
  case (fields now w r)
  with assms show ?thesis
    by (cases r) (auto simp: chat_noKey_frame transcribe_def Let_def split: option.splits)
qed

lemma run_noKey_frame:
  assumes "lemonfoxApiKey s = ''-''" and "k \<noteq> ''response_''"
  shows "cache (run s evs) k = cache s k"
  using assms unfolding run_def
  by (induction evs arbitrary: s) (simp_all add: handle_noKey_frame handle_static)

lemma pipeline_success:
  assumes "reply (pipeline s now w m) = Sent 200 body"
  shows "\<exists>v. cache (state (pipeline s now w m)) (cacheKey m) = Some (now + stdTTL * 1000, v)
             \<and> truthy v \<and> body = JObj [(''messages'', v)]"
  using assms
  by (auto simp: pipeline_def failed_def send_def cache_set_def split: prod.splits option.splits)

lemma chat_success_cases:
  assumes "reply (chat s t1 w (Some m)) = Sent 200 body"
  shows "(\<exists>e v. cache (state (chat s t1 w (Some m))) (cacheKey m) = Some (e, v)
                \<and> truthy v \<and> t1 \<le> e \<and> body = JObj [(''messages'', v)])
         \<or> (lemonfoxApiKey s = ''-'' \<and> m \<noteq> [] \<and> state (chat s t1 w (Some m)) = s
             \<and> \<not> truthy_opt (cache_get (cache s) t1 (cacheKey m))
             \<and> body = JObj [(''messages'', noApiKey (fallbackMessages s))])"
proof (cases "truthy_opt (cache_get (cache s) t1 (cacheKey m))")
  case True
  then obtain e v where "cache s (cacheKey m) = Some (e, v)" "truthy v" "t1 \<le> e"
    by (auto simp: cache_get_def split: option.splits if_splits)
  with assms show ?thesis by (simp add: chat_hit send_def)
next
  case False
  then have unc: "chat s t1 w (Some m) = uncached s t1 w m"
    by (auto simp: chat_def split: option.splits)
  show ?thesis
  proof (cases "m = []")
    case True
    with assms unc show ?thesis
      by (auto simp: uncached_def send_def cache_set_def greeting_def)
  next
    case nonempty: False
    show ?thesis
    proof (cases "lemonfoxApiKey s = ''-''")
      case True
      with assms unc nonempty False show ?thesis
        by (simp add: uncached_def send_def)
    next
      case False
      with unc nonempty have p: "chat s t1 w (Some m) = pipeline s t1 w m"
        by (simp add: uncached_def)
      from pipeline_success [of s t1 w m body] assms p show ?thesis
        by auto
    qed
  qed
qed

lemma chat_repeat:
  assumes first: "reply (chat s t1 w1 (Some m)) = Sent 200 body"
    and entry: "cache (state (chat s t1 w1 (Some m))) (cacheKey m) = Some (e, v)"
    and times: "t1 \<le> t2" "t2 \<le> e"
    and between: "list_all (\<lambda>ev. fst ev \<le> e) evs"
    and same: "cacheKey m' = cacheKey m"
  shows "chat (run (state (chat s t1 w1 (Some m))) evs) t2 w2 (Some m')
           = \<lparr>reply = Sent 200 body, effects = [],
              state = run (state (chat s t1 w1 (Some m))) evs\<rparr>"
proof -
  let ?s1 = "state (chat s t1 w1 (Some m))"
  from chat_success_cases [OF first] show ?thesis
  proof
    assume "\<exists>e' v'. cache ?s1 (cacheKey m) = Some (e', v') \<and> truthy v' \<and> t1 \<le> e'
                     \<and> body = JObj [(''messages'', v')]"
    with entry have tv: "truthy v" and body: "body = JObj [(''messages'', v)]" by auto
    have "cache (run ?s1 evs) (cacheKey m') = Some (e, v)"
      using run_entry_persist [OF _ tv _ between, of ?s1 "cacheKey m"] entry same
      by (simp add: cacheKey_prefix)
    from chat_hit [OF this tv times(2)] body show ?thesis by (simp add: send_def)
  next
    assume b: "lemonfoxApiKey s = ''-'' \<and> m \<noteq> [] \<and> ?s1 = s
               \<and> \<not> truthy_opt (cache_get (cache s) t1 (cacheKey m))
               \<and> body = JObj [(''messages'', noApiKey (fallbackMessages s))]"
    then have s1: "?s1 = s" by simp
    from b entry times have falsy: "\<not> truthy v"
      by (auto simp: cache_get_def split: if_splits)
    from b have ne: "cacheKey m \<noteq> ''response_''" by (simp add: cacheKey_eq_response_iff)
    from b same have m': "m' \<noteq> []" using cacheKey_eq_Nil_iff [of m' m] by simp
    have "cache (run s evs) (cacheKey m') = Some (e, v)"
      using run_noKey_frame [of s "cacheKey m" evs] b ne entry same by simp
    moreover have "lemonfoxApiKey (run s evs) = ''-''" using b by (simp add: run_static)
    ultimately show ?thesis
      using falsy m' b times
      by (simp add: s1 chat_def cache_get_def uncached_def run_static send_def)
  qed
qed

subsection \<open>The chatty world, evaluated\<close>



lemma show_nat_0: "show_nat 0 = ''0''"
  by code_simp

lemma mp3Path_0: "mp3Path 0 = ''audios/message_0.mp3''"
  by (simp add: mp3Path_def show_nat_0)

lemma clean_chatty: "clean hi_reply = hi_reply"
  by code_simp

lemma chatty_prepare:
  "prepare chatty m = (Some [hi_validated],
      [CompletionCall m, SpeechCall (Some (JStr ''Hi'')), WriteFile ''audios/message_0.mp3''])"
  by (simp add: prepare_def chatty_def clean_chatty parse_reply_def validate_entry_def
        ttsAll_def tts_def hi_validated_def mp3Path_0)

lemma hollow_prepare:
  "prepare hollow m = (Some [hi_validated],
      [CompletionCall m, SpeechCall (Some (JStr ''Hi'')), WriteFile ''audios/message_0.mp3''])"
  by (simp add: prepare_def hollow_def chatty_def clean_chatty parse_reply_def validate_entry_def
        ttsAll_def tts_def hi_validated_def mp3Path_0)

lemma base64_abc: "base64 ''abc'' = ''YWJj''"
  by code_simp

lemma chatty_postprocess:
  assumes "cache_get c now ''lipsync_Hi'' = None"
  shows "postprocess c now chatty [hi_validated]
           = (Some [[(''text'', JStr ''Hi''), (''facialExpression'', JStr ''default''),
                 (''animation'', JStr ''Idle''), (''audio'', JStr ''YWJj''),
                 (''lipsync'', JObj [])]],
              [Exec (ffmpeg_cmd 0), ReadFile ''audios/message_0.mp3''], c)"
proof -
  have k: "lipSyncCacheKey hi_validated = Some ''lipsync_Hi''"
    by (simp add: lipSyncCacheKey_def hi_validated_def)
  have "lipSyncOne c now chatty 0 hi_validated
          = (Some [(''text'', JStr ''Hi''), (''facialExpression'', JStr ''default''),
                 (''animation'', JStr ''Idle''), (''audio'', JStr ''YWJj''),
                 (''lipsync'', JObj [])],
             [Exec (ffmpeg_cmd 0), ReadFile ''audios/message_0.mp3''], [])"
    using assms
    by (simp add: lipSyncOne_def k [unfolded hi_validated_def] lipSyncFresh_def lipSyncMessage_def lipSyncCatch_def
          audioFileToBase64_def chatty_def mp3Path_0 base64_abc hi_validated_def
          del: base64.simps)
  then show ?thesis
    by (simp add: postprocess_def lipSyncAll_def cache_writes_def)
qed

lemma chatty_chat:
  assumes "m \<noteq> []"
  shows "chat (startup ''key'' silent) 5 chatty (Some m)
           = \<lparr>reply = Sent 200 (JObj [(''messages'', hi_messages)]),
              effects = [CompletionCall m, SpeechCall (Some (JStr ''Hi'')),
                         WriteFile ''audios/message_0.mp3'', Exec (ffmpeg_cmd 0),
                         ReadFile ''audios/message_0.mp3''],
              state = (startup ''key'' silent)
                        \<lparr>cache := cache_set Map.empty 5 (cacheKey m) hi_messages\<rparr>\<rparr>"
proof -
  have "cache_get Map.empty 5 ''lipsync_Hi'' = None" by (simp add: cache_get_def)
  from chatty_postprocess [OF this] assms show ?thesis
    by (simp add: chat_def startup_def cache_get_def uncached_def pipeline_def chatty_prepare
          send_def hi_messages_def)
qed

subsection \<open>Validated entries and lip-sync tasks\<close>


lemma those_eq_Some: "those xs = Some ys \<longleftrightarrow> xs = map Some ys"
proof (induction xs arbitrary: ys)
  case Nil
  then show ?case by auto
next
  case (Cons x xs)
  then show ?case by (cases x; cases ys) (auto split: option.splits)
qed

lemma those_nth:
  assumes "those xs = Some ys"
  shows "length ys = length xs \<and> (\<forall>i<length xs. xs ! i = Some (ys ! i))"
  using assms by (simp add: those_eq_Some)

lemma validate_nth:
  assumes "validate (JArr entries) = Some validated"
  shows "length validated = length entries
         \<and> (\<forall>i<length entries. validate_entry (entries ! i) = Some (validated ! i))"
  using those_nth [of "map validate_entry entries" validated] assms by simp

lemma validate_entry_fields:
  assumes "validate_entry msg = Some v"
  shows "map_of v ''text''
           = Some (js_or (member msg ''text'') (JStr ''Oops, something went wrong!''))"
    and "map_of v ''facialExpression''
           = Some (js_or (member msg ''facialExpression'') (JStr ''default''))"
    and "map_of v ''animation'' = Some (js_or (member msg ''animation'') (JStr ''Idle''))"
    and "map_of v ''audio'' = Some (JStr [])"
    and "map_of v ''lipsync'' = Some (JObj [])"
proof -
  from assms have
    "v = [(''text'', js_or (member msg ''text'') (JStr ''Oops, something went wrong!'')),
          (''facialExpression'', js_or (member msg ''facialExpression'') (JStr ''default'')),
          (''animation'', js_or (member msg ''animation'') (JStr ''Idle'')),
          (''audio'', JStr []), (''lipsync'', JObj [])]"
    by (auto simp: validate_entry_def split: if_splits)
  then show
    "map_of v ''text''
       = Some (js_or (member msg ''text'') (JStr ''Oops, something went wrong!''))"
    "map_of v ''facialExpression''
       = Some (js_or (member msg ''facialExpression'') (JStr ''default''))"
    "map_of v ''animation'' = Some (js_or (member msg ''animation'') (JStr ''Idle''))"
    "map_of v ''audio'' = Some (JStr [])"
    "map_of v ''lipsync'' = Some (JObj [])"
    by simp_all
qed

lemma map_of_assign:
  "map_of (assign obj k v) k' = (if k' = k then Some v else map_of obj k')"
  by (induction obj) auto

lemma lipSyncCatch_result:
  assumes "fst (lipSyncCatch w i message effs) = Some out"
  shows "\<exists>bytes. readFile w (mp3Path i) = Some bytes
           \<and> out = assign (assign message ''audio'' (JStr (base64 bytes))) ''lipsync'' (JObj [])"
  using assms by (auto simp: lipSyncCatch_def audioFileToBase64_def split: option.splits)

lemma lipSyncFresh_result:
  assumes "fst (lipSyncFresh w i message key) = Some out"
  shows "\<exists>bytes l. readFile w (mp3Path i) = Some bytes
           \<and> out = assign (assign message ''audio'' (JStr (base64 bytes))) ''lipsync'' l"
  using assms
  by (auto simp: lipSyncFresh_def audioFileToBase64_def
           dest!: lipSyncCatch_result split: option.splits prod.splits bool.splits)

lemma lipSyncOne_result:
  assumes "fst (lipSyncOne c now w i message) = Some out"
  shows "\<exists>bytes l. readFile w (mp3Path i) = Some bytes
           \<and> map_of out ''audio'' = Some (JStr (base64 bytes))
           \<and> map_of out ''lipsync'' = Some l
           \<and> (\<forall>k. k \<noteq> ''audio'' \<longrightarrow> k \<noteq> ''lipsync'' \<longrightarrow> map_of out k = map_of message k)"
proof -
  from assms obtain key where key: "lipSyncCacheKey message = Some key"
    by (cases "lipSyncCacheKey message") (auto simp: lipSyncOne_def)
  show ?thesis
  proof (cases "truthy_opt (cache_get c now key)")
    case True
    then obtain l where "cache_get c now key = Some l" "truthy l"
      by (cases "cache_get c now key") auto
    with assms key show ?thesis
      by (auto simp: lipSyncOne_def audioFileToBase64_def map_of_assign split: option.splits)
  next
    case False
    with key have "lipSyncOne c now w i message = lipSyncFresh w i message key"
      by (auto simp: lipSyncOne_def split: option.splits)
    with assms lipSyncFresh_result [of w i message key out] show ?thesis
      by (auto simp: map_of_assign)
  qed
qed

lemma lipSyncAll_nth:
  assumes "i < length messages"
  shows "lipSyncAll c now w messages ! i = lipSyncOne c now w i (messages ! i)"
  using assms by (simp add: lipSyncAll_def nth_enumerate_eq)

lemma length_lipSyncAll: "length (lipSyncAll c now w messages) = length messages"
  by (simp add: lipSyncAll_def)

lemma postprocess_nth:
  assumes "fst (postprocess c now w messages) = Some out"
  shows "length out = length messages
         \<and> (\<forall>i<length messages. fst (lipSyncOne c now w i (messages ! i)) = Some (out ! i))"
proof -
  from assms have "those (map fst (lipSyncAll c now w messages)) = Some out"
    by (simp add: postprocess_def Let_def)
  from those_nth [OF this] show ?thesis
    by (simp add: length_lipSyncAll lipSyncAll_nth)
qed

lemma postprocess_Some:
  assumes "\<forall>i<length messages. fst (lipSyncOne c now w i (messages ! i)) \<noteq> None"
  shows "\<exists>out. fst (postprocess c now w messages) = Some out"
proof -
  let ?xs = "map fst (lipSyncAll c now w messages)"
  have "\<forall>i<length ?xs. ?xs ! i \<noteq> None"
    using assms by (simp add: length_lipSyncAll lipSyncAll_nth)
  then have "?xs = map Some (map the ?xs)"
    by (intro nth_equalityI) auto
  then have "those ?xs = Some (map the ?xs)"
    by (simp only: those_eq_Some)
  then show ?thesis by (simp add: postprocess_def Let_def)
qed

lemma chat_pipeline:
  assumes "userMessage \<noteq> []" and "lemonfoxApiKey s \<noteq> ''-''"
    and "\<not> truthy_opt (cache_get (cache s) now (cacheKey userMessage))"
  shows "chat s now w (Some userMessage) = pipeline s now w userMessage"
  using assms by (auto simp: chat_def uncached_def split: option.splits)

lemma pipeline_Sent_200:
  assumes "reply (pipeline s now w m) = Sent 200 body"
  shows "\<exists>validated effs out. prepare w m = (Some validated, effs)
           \<and> fst (postprocess (cache s) now w validated) = Some out
           \<and> body = JObj [(''messages'', JArr (map JObj out))]"
  using assms
  by (auto simp: pipeline_def failed_def send_def split: prod.splits option.splits)

lemma pipeline_reply:
  assumes "prepare w m = (Some validated, effs)"
    and "fst (postprocess (cache s) now w validated) = Some out"
  shows "reply (pipeline s now w m) = Sent 200 (JObj [(''messages'', JArr (map JObj out))])"
  using assms by (auto simp: pipeline_def send_def split: prod.splits)


lemma prepare_validated:
  assumes "prepare w m = (Some validated, effs)"
    and "completion w m = Some rawContent"
    and "parse_reply w (clean rawContent) = Some parsed"
  shows "validate parsed = Some validated"
  using assms by (auto simp: prepare_def Let_def split: option.splits if_splits)

subsection \<open>Decimal rendering is injective: one file and one command per index\<close>


lemma base64_Nil_iff: "base64 bytes = [] \<longleftrightarrow> bytes = []"
  by (cases bytes rule: base64.cases) simp_all

lemma is_digit_digit: "n < 10 \<Longrightarrow> is_digit (digit n)"
  by (simp add: is_digit_def digit_def)

lemma digit_inj:
  assumes "n < 10" and "m < 10" and "digit n = digit m"
  shows "n = m"
proof -
  from assms(3) have "(of_char (digit n) :: nat) = of_char (digit m)" by simp
  with assms(1,2) show ?thesis by (simp add: digit_def)
qed

lemma show_nat_digits: "\<forall>c\<in>set (show_nat n). is_digit c"
proof (induction n rule: show_nat.induct)
  case (1 n)
  show ?case
  proof (cases "n < 10")
    case True
    then show ?thesis by (simp add: show_nat.simps [of n] is_digit_digit)
  next
    case False
    with "1" show ?thesis by (simp add: show_nat.simps [of n] is_digit_digit)
  qed
qed

lemma show_nat_not_Nil: "show_nat n \<noteq> []"
  by (simp add: show_nat.simps [of n])

lemma show_nat_inj: "show_nat n = show_nat m \<Longrightarrow> n = m"
proof (induction n arbitrary: m rule: show_nat.induct)
  case (1 n)
  show ?case
  proof (cases "n < 10")
    case n: True
    show ?thesis
    proof (cases "m < 10")
      case True
      with n "1.prems" show ?thesis
        by (simp add: show_nat.simps [of n] show_nat.simps [of m] digit_inj)
    next
      case False
      with n "1.prems" show_nat_not_Nil [of "m div 10"] show ?thesis
        by (simp add: show_nat.simps [of n] show_nat.simps [of m])
    qed
  next
    case n: False
    show ?thesis
    proof (cases "m < 10")
      case True
      with n "1.prems" show_nat_not_Nil [of "n div 10"] show ?thesis
        by (simp add: show_nat.simps [of n] show_nat.simps [of m])
    next
      case False
      with n "1.prems" have eq: "show_nat (n div 10) = show_nat (m div 10)"
        and d: "digit (n mod 10) = digit (m mod 10)"
        by (simp_all add: show_nat.simps [of n] show_nat.simps [of m])
      from "1.IH" [OF n eq] have "n div 10 = m div 10" .
      moreover from d have "n mod 10 = m mod 10" by (intro digit_inj) simp_all
      ultimately show ?thesis by (metis div_mult_mod_eq)
    qed
  qed
qed

lemma show_nat_dot_inj:
  assumes "show_nat i @ CHR ''.'' # r = show_nat j @ CHR ''.'' # r'"
  shows "i = j"
proof -
  have nd: "\<not> is_digit CHR ''.''" by (simp add: is_digit_def)
  have "takeWhile is_digit (show_nat i @ CHR ''.'' # r) = show_nat i"
    using show_nat_digits [of i] nd by (simp add: takeWhile_tail)
  moreover have "takeWhile is_digit (show_nat j @ CHR ''.'' # r') = show_nat j"
    using show_nat_digits [of j] nd by (simp add: takeWhile_tail)
  ultimately have "show_nat i = show_nat j" using assms by simp
  then show ?thesis by (rule show_nat_inj)
qed

lemma mp3Path_inj: "mp3Path i = mp3Path j \<Longrightarrow> i = j"
  by (auto simp: mp3Path_def dest: show_nat_dot_inj show_nat_inj)

lemma ffmpeg_cmd_inj: "ffmpeg_cmd i = ffmpeg_cmd j \<Longrightarrow> i = j"
  by (auto simp: ffmpeg_cmd_def mp3Path_def dest: show_nat_dot_inj show_nat_inj)

lemma rhubarb_cmd_inj: "rhubarb_cmd i = rhubarb_cmd j \<Longrightarrow> i = j"
  by (auto simp: rhubarb_cmd_def jsonPath_def dest: show_nat_dot_inj show_nat_inj)

lemma ffmpeg_not_rhubarb: "ffmpeg_cmd i \<noteq> rhubarb_cmd j"
  by (simp add: ffmpeg_cmd_def rhubarb_cmd_def)

subsection \<open>Effects and results of the lip-sync tasks\<close>

lemma lipSyncCatch_fst:
  "fst (lipSyncCatch w i message effs)
     = map_option (\<lambda>bytes. assign (assign message ''audio'' (JStr (base64 bytes))) ''lipsync'' (JObj []))
         (readFile w (mp3Path i))"
  by (simp add: lipSyncCatch_def audioFileToBase64_def split: option.splits)

lemma lipSyncFresh_None_iff:
  "fst (lipSyncFresh w i message key) = None \<longleftrightarrow> readFile w (mp3Path i) = None"
  by (auto simp: lipSyncFresh_def lipSyncCatch_fst audioFileToBase64_def
           split: option.splits prod.splits bool.splits)

lemma lipSyncOne_None_iff:
  "fst (lipSyncOne c now w i message) = None
     \<longleftrightarrow> lipSyncCacheKey message = None \<or> readFile w (mp3Path i) = None"
  by (auto simp: lipSyncOne_def lipSyncFresh_None_iff audioFileToBase64_def split: option.splits)

lemma lipSyncOne_failed:
  assumes "lipSyncCacheKey message = Some key"
    and "\<not> truthy_opt (cache_get c now key)"
    and "\<not> exec w (ffmpeg_cmd i) \<or> \<not> exec w (rhubarb_cmd i)"
    and "readFile w (mp3Path i) = Some bytes"
  shows "fst (lipSyncOne c now w i message)
           = Some (assign (assign message ''audio'' (JStr (base64 bytes))) ''lipsync'' (JObj []))"
proof -
  from assms(1,2) have "lipSyncOne c now w i message = lipSyncFresh w i message key"
    by (auto simp: lipSyncOne_def split: option.splits)
  moreover from assms(3) have "fst (lipSyncMessage w i) = False"
    by (auto simp: lipSyncMessage_def)
  ultimately show ?thesis
    using assms(4)
    by (cases "lipSyncMessage w i") (simp add: lipSyncFresh_def lipSyncCatch_fst)
qed

lemma lipSyncFresh_cong:
  assumes "readFile w' = readFile w" and "jsonParse w' = jsonParse w"
    and "exec w' (ffmpeg_cmd j) = exec w (ffmpeg_cmd j)"
    and "exec w' (rhubarb_cmd j) = exec w (rhubarb_cmd j)"
  shows "lipSyncFresh w' j message key = lipSyncFresh w j message key"
proof -
  have a: "audioFileToBase64 w' p = audioFileToBase64 w p" for p
    using assms(1) by (simp add: audioFileToBase64_def)
  have t: "readJsonTranscript w' p = readJsonTranscript w p" for p
    using assms(1,2) by (simp add: readJsonTranscript_def cong: option.case_cong)
  have m: "lipSyncMessage w' j = lipSyncMessage w j"
    using assms(3,4) by (simp add: lipSyncMessage_def)
  have c: "lipSyncCatch w' j message effs = lipSyncCatch w j message effs" for effs
    by (simp add: lipSyncCatch_def a)
  show ?thesis
    by (simp add: lipSyncFresh_def a t m c cong: option.case_cong prod.case_cong bool.case_cong)
qed

lemma lipSyncOne_cong:
  assumes "readFile w' = readFile w" and "jsonParse w' = jsonParse w"
    and "exec w' (ffmpeg_cmd j) = exec w (ffmpeg_cmd j)"
    and "exec w' (rhubarb_cmd j) = exec w (rhubarb_cmd j)"
  shows "lipSyncOne c now w' j message = lipSyncOne c now w j message"
proof -
  have a: "audioFileToBase64 w' p = audioFileToBase64 w p" for p
    using assms(1) by (simp add: audioFileToBase64_def)
  show ?thesis
    by (simp add: lipSyncOne_def a lipSyncFresh_cong [OF assms] cong: option.case_cong if_cong)
qed

lemma prepare_exec_irrelevant: "prepare (w\<lparr>exec := f\<rparr>) m = prepare w m"
proof -
  have p: "parse_reply (w\<lparr>exec := f\<rparr>) d = parse_reply w d" for d
    by (simp add: parse_reply_def)
  have t: "ttsAll (w\<lparr>exec := f\<rparr>) messages = ttsAll w messages" for messages
    by (simp add: ttsAll_def tts_def)
  show ?thesis by (simp add: prepare_def p t cong: option.case_cong)
qed

lemma pipeline_all_read:
  assumes "prepare w m = (Some validated, effs)"
    and "\<forall>j<length validated.
           lipSyncCacheKey (validated ! j) \<noteq> None \<and> readFile w (mp3Path j) \<noteq> None"
  shows "\<exists>out. fst (postprocess (cache s) now w validated) = Some out
           \<and> reply (pipeline s now w m) = Sent 200 (JObj [(''messages'', JArr (map JObj out))])"
proof -
  from assms(2) have "\<forall>j<length validated.
      fst (lipSyncOne (cache s) now w j (validated ! j)) \<noteq> None"
    by (simp add: lipSyncOne_None_iff)
  from postprocess_Some [OF this] obtain out where
    "fst (postprocess (cache s) now w validated) = Some out" ..
  with pipeline_reply [OF assms(1) this] show ?thesis by blast
qed

text \<open>
  When the text of one message cannot be converted to a string, its task rejects and
  the request is answered with the error fallback.
\<close>

lemma pipeline_key_throws:
  assumes "prepare w m = (Some validated, effs)"
    and "j < length validated" and "lipSyncCacheKey (validated ! j) = None"
  shows "reply (pipeline s now w m) = Sent 500 (JObj [(''messages'', error (fallbackMessages s))])"
proof -
  have "fst (lipSyncOne (cache s) now w j (validated ! j)) = None"
    using assms(3) by (simp add: lipSyncOne_None_iff)
  have "fst (postprocess (cache s) now w validated) = None"
  proof (cases "fst (postprocess (cache s) now w validated)")
    case None
    then show ?thesis .
  next
    case (Some out)
    from postprocess_nth [OF this] assms(2)
    have "fst (lipSyncOne (cache s) now w j (validated ! j)) = Some (out ! j)" by blast
    with \<open>fst (lipSyncOne (cache s) now w j (validated ! j)) = None\<close> show ?thesis by simp
  qed
  with assms(1) show ?thesis
    by (auto simp: pipeline_def failed_def split: prod.splits option.splits)
qed












subsection \<open>The two-message world, evaluated\<close>

lemma clean_duet: "clean duet_reply = duet_reply"
  by code_simp

lemma show_nat_1: "show_nat (Suc 0) = ''1''"
  by code_simp

lemma mp3Path_1: "mp3Path (Suc 0) = ''audios/message_1.mp3''"
  by (simp add: mp3Path_def show_nat_1)

lemma duet_prepare:
  "prepare duet m = (Some [hi_validated, yo_validated],
      [CompletionCall m, SpeechCall (Some (JStr ''Hi'')), WriteFile ''audios/message_0.mp3'',
       SpeechCall (Some (JStr ''Yo'')), WriteFile ''audios/message_1.mp3''])"
  by (simp add: prepare_def duet_def clean_duet parse_reply_def validate_entry_def
        ttsAll_def tts_def hi_validated_def yo_validated_def mp3Path_0 mp3Path_1)

lemma duet_keys:
  "lipSyncCacheKey hi_validated = Some ''lipsync_Hi''"
  "lipSyncCacheKey yo_validated = Some ''lipsync_Yo''"
  by (simp_all add: lipSyncCacheKey_def hi_validated_def yo_validated_def)

lemma duet_reads:
  assumes "j < length [hi_validated, yo_validated]"
  shows "lipSyncCacheKey ([hi_validated, yo_validated] ! j) \<noteq> None
         \<and> readFile duet (mp3Path j) \<noteq> None"
proof -
  from assms have "j = 0 \<or> j = Suc 0" by auto
  then show ?thesis by (auto simp: duet_def mp3Path_0 mp3Path_1 duet_keys)
qed

subsection \<open>The greeting for the empty message\<close>

text \<open>
  Only the empty message has the cache key "response_", so that entry is always a
  greeting, and a server started with an empty cache answers the empty message with the
  greeting after any sequence of requests, for every credential.
\<close>

lemma greets_greeting: "greets (greeting w)"
  by (simp add: greeting_def split: option.splits)

lemma greets_truthy: "greets v \<Longrightarrow> truthy v"
  by (cases v rule: greets.cases) simp_all

lemma chat_greeted:
  assumes "greeted s"
  shows "greeted (state (chat s now w m))"
proof (cases m)
  case None
  with assms show ?thesis by (simp add: chat_def)
next
  case (Some userMessage)
  have "greeted (state (uncached s now w userMessage))"
  proof (cases "userMessage = []")
    case True
    then show ?thesis
      by (simp add: uncached_def greeted_def cache_set_def cacheKey_Nil greets_greeting)
  next
    case False
    then have "''response_'' \<noteq> cacheKey userMessage"
      using cacheKey_eq_response_iff [of userMessage] by auto
    from uncached_cache_frame [OF _ this, of s now w] assms show ?thesis
      by (simp add: greeted_def)
  qed
  with assms Some show ?thesis by (simp add: chat_def split: option.splits)
qed

lemma handle_greeted:
  assumes "greeted s"
  shows "greeted (state (handle s ev))"
proof (cases ev)
  case (fields now w r)
  with assms show ?thesis
    by (cases r) (auto simp: chat_greeted transcribe_def Let_def split: option.splits)
qed

lemma run_greeted: "greeted s \<Longrightarrow> greeted (run s evs)"
  unfolding run_def
  by (induction evs arbitrary: s) (simp_all add: handle_greeted)

lemma chat_empty_message_greets:
  assumes "cache s0 = Map.empty"
  shows "\<exists>v. reply (chat (run s0 evs) now w (Some [])) = Sent 200 (JObj [(''messages'', v)])
           \<and> greets v"
proof -
  let ?s = "run s0 evs"
  from assms have "greeted s0" by (simp add: greeted_def)
  then have g: "greeted ?s" by (rule run_greeted)
  show ?thesis
  proof (cases "truthy_opt (cache_get (cache ?s) now (cacheKey []))")
    case True
    then obtain e v where c: "cache ?s (cacheKey []) = Some (e, v)" and "truthy v" "now \<le> e"
      by (auto simp: cache_get_def split: option.splits if_splits)
    moreover from g c have "greets v" by (simp add: greeted_def cacheKey_Nil)
    ultimately show ?thesis by (simp add: chat_hit send_def)
  next
    case False
    then have "chat ?s now w (Some []) = uncached ?s now w []"
      by (auto simp: chat_def split: option.splits)
    then show ?thesis by (simp add: uncached_def send_def greets_greeting)
  qed
qed

subsection \<open>The greeting and the absent message\<close>

text \<open>
  C1.  A request to POST /chat whose message is the empty string or absent is to be
  answered with exactly one message, carrying the fixed greeting text and the expression
  "smile", for every credential.  The empty string is answered so (see above).  For an
  absent message the handler does not get that far: line 152 calls \<^verbatim>\<open>replace\<close> on
  \<^verbatim>\<open>undefined\<close>, before the test of line 159 and outside the \<^verbatim>\<open>try\<close>, so the handler throws
  and no greeting is sent, whatever the state, the time and the world.
\<close>

theorem chat_absent_message_throws:
  "reply (chat s now w None) = Threw"
  by (simp add: chat_def)

subsection \<open>The handler without a credential\<close>

text \<open>
  C10.  In no-credential mode (the key is "-"), a non-empty message for which the cache
  has nothing usable is answered with the noApiKey fallback list under status 200, while
  every path through the failure branch answers with status 500.
\<close>

theorem chat_noApiKey_status_200:
  assumes "lemonfoxApiKey s = ''-''"
    and "userMessage \<noteq> []"
    and "\<not> truthy_opt (cache_get (cache s) now (cacheKey userMessage))"
  shows "reply (chat s now w (Some userMessage))
           = Sent 200 (JObj [(''messages'', noApiKey (fallbackMessages s))])
         \<and> reply (failed s effs c) = Sent 500 (JObj [(''messages'', error (fallbackMessages s))])"
  using assms
  by (auto simp: chat_def uncached_def send_def failed_def split: option.splits)

theorem chat_noApiKey_status_200_witness:
  "lemonfoxApiKey (startup ''-'' silent) = ''-'' \<and> ''hello'' \<noteq> []
   \<and> \<not> truthy_opt (cache_get (cache (startup ''-'' silent)) 7 (cacheKey ''hello''))
   \<and> reply (chat (startup ''-'' silent) 7 silent (Some ''hello''))
       = Sent 200 (JObj [(''messages'', noApiKey (fallbackMessages (startup ''-'' silent)))])"
  using chat_noApiKey_status_200 [of "startup ''-'' silent" "''hello''" 7 silent]
  by (simp add: startup_def cache_get_def)

subsection \<open>A reply that is no JSON\<close>

text \<open>
  C4.  When the completion reply, with code fences and control characters stripped, does
  not parse as JSON, POST /chat answers with the error fallback list under status 500,
  and the request writes no audio file: its only effect is the completion call.
\<close>

theorem chat_unparseable_reply:
  assumes "userMessage \<noteq> []"
    and "lemonfoxApiKey s \<noteq> ''-''"
    and "\<not> truthy_opt (cache_get (cache s) now (cacheKey userMessage))"
    and "completion w userMessage = Some rawContent"
    and "jsonParse w (clean rawContent) = None"
  shows "reply (chat s now w (Some userMessage))
           = Sent 500 (JObj [(''messages'', error (fallbackMessages s))])
         \<and> filter is_write (effects (chat s now w (Some userMessage))) = []
         \<and> effects (chat s now w (Some userMessage)) = [CompletionCall userMessage]
         \<and> state (chat s now w (Some userMessage)) = s"
  using assms
  by (auto simp: chat_def uncached_def pipeline_def prepare_def parse_reply_def failed_def
           split: option.splits)

theorem chat_unparseable_reply_witness:
  "''hello'' \<noteq> [] \<and> lemonfoxApiKey (startup ''key'' silent) \<noteq> ''-''
   \<and> completion babbling ''hello'' = Some ''sorry, no idea''
   \<and> jsonParse babbling (clean ''sorry, no idea'') = None
   \<and> reply (chat (startup ''key'' silent) 7 babbling (Some ''hello''))
       = Sent 500 (JObj [(''messages'', error (fallbackMessages (startup ''key'' silent)))])
   \<and> filter is_write (effects (chat (startup ''key'' silent) 7 babbling (Some ''hello''))) = []"
  using chat_unparseable_reply
    [of "''hello''" "startup ''key'' silent" 7 babbling "''sorry, no idea''"]
  by (simp add: startup_def cache_get_def babbling_def silent_def)

section \<open>POST /transcribe without audio or credential\<close>

text \<open>
  C8.  A request to POST /transcribe whose body has no \<^verbatim>\<open>audioBase64\<close>, or any request
  when the credential is "-", is answered with status 400 and makes no upstream call:
  it has no effect at all.
\<close>

theorem transcribe_missing_input:
  assumes "audioBase64 = None \<or> lemonfoxApiKey s = ''-''"
  shows "reply (transcribe s w audioBase64)
           = Sent 400 (JObj [(''error'', JStr ''Missing audio or API key'')])
         \<and> effects (transcribe s w audioBase64) = []
         \<and> state (transcribe s w audioBase64) = s"
  using assms
  by (auto simp: transcribe_def Let_def split: option.splits)

theorem transcribe_missing_input_witness:
  "(None = (None :: string option) \<or> lemonfoxApiKey (startup ''key'' silent) = ''-'')
   \<and> reply (transcribe (startup ''key'' silent) silent None)
       = Sent 400 (JObj [(''error'', JStr ''Missing audio or API key'')])
   \<and> effects (transcribe (startup ''key'' silent) silent None) = []"
  using transcribe_missing_input [of None "startup ''key'' silent" silent]
  by simp

section \<open>Requests in no-credential mode, repeated requests and colliding keys\<close>

text \<open>
  C2.  With the credential "-", every request to POST /chat with a non-empty message is
  answered with the static noApiKey fallback list and performs no network call (indeed
  no effect at all).  The handler looks the cache up first, so this is a property of the
  states the server can reach: started with an empty cache and the credential "-",
  whatever requests it has served since, the cache holds no entry for a non-empty message.
\<close>

theorem chat_noApiKey_no_network:
  assumes "lemonfoxApiKey s0 = ''-''" and "cache s0 = Map.empty" and "userMessage \<noteq> []"
  shows "reply (chat (run s0 evs) now w (Some userMessage))
           = send (JObj [(''messages'', noApiKey (fallbackMessages s0))])
         \<and> filter is_network (effects (chat (run s0 evs) now w (Some userMessage))) = []
         \<and> effects (chat (run s0 evs) now w (Some userMessage)) = []"
proof -
  have "cacheKey userMessage \<noteq> ''response_''"
    using assms(3) by (simp add: cacheKey_eq_response_iff)
  then have "cache (run s0 evs) (cacheKey userMessage) = None"
    using run_noKey_frame [OF assms(1), of "cacheKey userMessage" evs] assms(2) by simp
  moreover have "lemonfoxApiKey (run s0 evs) = ''-''"
    using assms(1) by (simp add: run_static)
  ultimately show ?thesis
    using assms(3) by (simp add: chat_def cache_get_def uncached_def run_static)
qed

theorem chat_noApiKey_no_network_witness:
  "lemonfoxApiKey (startup ''-'' silent) = ''-'' \<and> cache (startup ''-'' silent) = Map.empty
   \<and> ''hello'' \<noteq> []
   \<and> reply (chat (run (startup ''-'' silent) [(1, silent, Chat (Some []))]) 7 silent
              (Some ''hello''))
       = send (JObj [(''messages'', noApiKey (fallbackMessages (startup ''-'' silent)))])
   \<and> filter is_network
        (effects (chat (run (startup ''-'' silent) [(1, silent, Chat (Some []))]) 7 silent
                    (Some ''hello''))) = []"
  using chat_noApiKey_no_network
    [of "startup ''-'' silent" "''hello''" "[(1, silent, Chat (Some []))]" 7 silent]
  by (simp add: startup_def)

text \<open>
  C3.  When a request to POST /chat for some text is answered with success (status 200)
  and leaves a cache entry under the key of that text, a second request with the same
  text that arrives before the entry expires is answered with the identical body and has
  no effect at all: no completion call, no speech call, no subprocess.  Any requests may
  be served in between, as long as they too arrive before the entry expires.
\<close>

theorem chat_same_text_twice:
  assumes "reply (chat s t1 w1 (Some m)) = Sent 200 body"
    and "cache (state (chat s t1 w1 (Some m))) (cacheKey m) = Some (e, v)"
    and "t1 \<le> t2" and "t2 \<le> e"
    and "list_all (\<lambda>ev. fst ev \<le> e) evs"
  shows "reply (chat (run (state (chat s t1 w1 (Some m))) evs) t2 w2 (Some m)) = Sent 200 body
         \<and> effects (chat (run (state (chat s t1 w1 (Some m))) evs) t2 w2 (Some m)) = []"
  using chat_repeat [OF assms, of m w2] by simp

theorem chat_same_text_twice_witness:
  "reply (chat (startup ''key'' silent) 5 chatty (Some ''hello''))
     = Sent 200 (JObj [(''messages'', hi_messages)])
   \<and> cache (state (chat (startup ''key'' silent) 5 chatty (Some ''hello''))) (cacheKey ''hello'')
       = Some (3600005, hi_messages)
   \<and> (5::nat) \<le> 9 \<and> (9::nat) \<le> 3600005
   \<and> list_all (\<lambda>ev. fst ev \<le> 3600005) [(7::nat, silent, Chat (Some ''bye''))]
   \<and> reply (chat (run (state (chat (startup ''key'' silent) 5 chatty (Some ''hello'')))
                     [(7, silent, Chat (Some ''bye''))]) 9 silent (Some ''hello''))
       = Sent 200 (JObj [(''messages'', hi_messages)])
   \<and> effects (chat (run (state (chat (startup ''key'' silent) 5 chatty (Some ''hello'')))
                       [(7, silent, Chat (Some ''bye''))]) 9 silent (Some ''hello'')) = []"
proof -
  have h1: "reply (chat (startup ''key'' silent) 5 chatty (Some ''hello''))
              = Sent 200 (JObj [(''messages'', hi_messages)])"
    by (simp add: chatty_chat)
  have h2: "cache (state (chat (startup ''key'' silent) 5 chatty (Some ''hello'')))
              (cacheKey ''hello'') = Some (3600005, hi_messages)"
    by (simp add: chatty_chat cache_set_def stdTTL_def)
  have h3: "(5::nat) \<le> 9" and h4: "(9::nat) \<le> 3600005" by simp_all
  have h5: "list_all (\<lambda>ev. fst ev \<le> 3600005) [(7::nat, silent, Chat (Some ''bye''))]"
    by simp
  from chat_same_text_twice [OF h1 h2 h3 h4 h5, of silent] h1 h2 h5 show ?thesis
    by (simp only: simp_thms h3 h4)
qed



section \<open>The messages of a successful reply\<close>

text \<open>
  C5.  When a request runs the completion path and is answered with success, the reply
  holds one message per parsed entry, in order, and each message has all five
  properties: \<^verbatim>\<open>text\<close>, \<^verbatim>\<open>facialExpression\<close> and \<^verbatim>\<open>animation\<close> carry the entry's value, or
  the default "Oops, something went wrong!", "default" and "Idle" where the entry has
  none (or a falsy one); \<^verbatim>\<open>audio\<close> is a string and \<^verbatim>\<open>lipsync\<close> is defined.
\<close>

theorem chat_messages_complete:
  assumes "userMessage \<noteq> []" and "lemonfoxApiKey s \<noteq> ''-''"
    and "\<not> truthy_opt (cache_get (cache s) now (cacheKey userMessage))"
    and "completion w userMessage = Some rawContent"
    and "parse_reply w (clean rawContent) = Some (JArr entries)"
    and "reply (chat s now w (Some userMessage)) = Sent 200 body"
  shows "\<exists>out. body = JObj [(''messages'', JArr out)] \<and> length out = length entries
           \<and> (\<forall>i<length entries.
                 member (out ! i) ''text''
                   = Some (js_or (member (entries ! i) ''text'') (JStr ''Oops, something went wrong!''))
               \<and> member (out ! i) ''facialExpression''
                   = Some (js_or (member (entries ! i) ''facialExpression'') (JStr ''default''))
               \<and> member (out ! i) ''animation''
                   = Some (js_or (member (entries ! i) ''animation'') (JStr ''Idle''))
               \<and> (\<exists>a. member (out ! i) ''audio'' = Some (JStr a))
               \<and> (\<exists>l. member (out ! i) ''lipsync'' = Some l))"
proof -
  from assms(6) chat_pipeline [OF assms(1-3)]
  have "reply (pipeline s now w userMessage) = Sent 200 body" by simp
  from pipeline_Sent_200 [OF this] obtain validated effs out where
    prep: "prepare w userMessage = (Some validated, effs)"
    and post: "fst (postprocess (cache s) now w validated) = Some out"
    and body: "body = JObj [(''messages'', JArr (map JObj out))]"
    by blast
  from prepare_validated [OF prep assms(4,5)] validate_nth
  have len: "length validated = length entries"
    and val: "\<forall>i<length entries. validate_entry (entries ! i) = Some (validated ! i)"
    by blast+
  from postprocess_nth [OF post]
  have len': "length out = length validated"
    and task: "\<forall>i<length validated.
                 fst (lipSyncOne (cache s) now w i (validated ! i)) = Some (out ! i)"
    by blast+
  have "\<forall>i<length entries.
          member (map JObj out ! i) ''text''
            = Some (js_or (member (entries ! i) ''text'') (JStr ''Oops, something went wrong!''))
        \<and> member (map JObj out ! i) ''facialExpression''
            = Some (js_or (member (entries ! i) ''facialExpression'') (JStr ''default''))
        \<and> member (map JObj out ! i) ''animation''
            = Some (js_or (member (entries ! i) ''animation'') (JStr ''Idle''))
        \<and> (\<exists>a. member (map JObj out ! i) ''audio'' = Some (JStr a))
        \<and> (\<exists>l. member (map JObj out ! i) ''lipsync'' = Some l)"
  proof (intro allI impI)
    fix i assume i: "i < length entries"
    with val have v: "validate_entry (entries ! i) = Some (validated ! i)" by simp
    from i len task have "fst (lipSyncOne (cache s) now w i (validated ! i)) = Some (out ! i)"
      by simp
    from lipSyncOne_result [OF this] obtain bytes l where
      a: "map_of (out ! i) ''audio'' = Some (JStr (base64 bytes))"
      and l: "map_of (out ! i) ''lipsync'' = Some l"
      and rest: "\<forall>k. k \<noteq> ''audio'' \<longrightarrow> k \<noteq> ''lipsync'' \<longrightarrow> map_of (out ! i) k = map_of (validated ! i) k"
      by blast
    from v have fields:
      "map_of (validated ! i) ''text''
         = Some (js_or (member (entries ! i) ''text'') (JStr ''Oops, something went wrong!''))"
      "map_of (validated ! i) ''facialExpression''
         = Some (js_or (member (entries ! i) ''facialExpression'') (JStr ''default''))"
      "map_of (validated ! i) ''animation''
         = Some (js_or (member (entries ! i) ''animation'') (JStr ''Idle''))"
      using validate_entry_fields [OF v] by simp_all
    from i len len' have "map JObj out ! i = JObj (out ! i)" by simp
    with a l rest fields show
      "member (map JObj out ! i) ''text''
            = Some (js_or (member (entries ! i) ''text'') (JStr ''Oops, something went wrong!''))
        \<and> member (map JObj out ! i) ''facialExpression''
            = Some (js_or (member (entries ! i) ''facialExpression'') (JStr ''default''))
        \<and> member (map JObj out ! i) ''animation''
            = Some (js_or (member (entries ! i) ''animation'') (JStr ''Idle''))
        \<and> (\<exists>a. member (map JObj out ! i) ''audio'' = Some (JStr a))
        \<and> (\<exists>l. member (map JObj out ! i) ''lipsync'' = Some l)"
      by simp
  qed
  with body len len' show ?thesis by (intro exI [of _ "map JObj out"]) simp
qed


theorem chat_messages_complete_witness:
  "''hello'' \<noteq> [] \<and> lemonfoxApiKey (startup ''key'' silent) \<noteq> ''-''
   \<and> \<not> truthy_opt (cache_get (cache (startup ''key'' silent)) 5 (cacheKey ''hello''))
   \<and> completion chatty ''hello'' = Some hi_reply
   \<and> parse_reply chatty (clean hi_reply) = Some (JArr [JObj [(''text'', JStr ''Hi'')]])
   \<and> reply (chat (startup ''key'' silent) 5 chatty (Some ''hello''))
       = Sent 200 (JObj [(''messages'', hi_messages)])
   \<and> (\<exists>out. JObj [(''messages'', hi_messages)] = JObj [(''messages'', JArr out)]
          \<and> length out = length [JObj [(''text'', JStr ''Hi'')]]
          \<and> member (out ! 0) ''text'' = Some (JStr ''Hi'')
          \<and> member (out ! 0) ''facialExpression'' = Some (JStr ''default'')
          \<and> member (out ! 0) ''animation'' = Some (JStr ''Idle''))"
proof -
  have h1: "''hello'' \<noteq> []" by simp
  have h2: "lemonfoxApiKey (startup ''key'' silent) \<noteq> ''-''" by (simp add: startup_def)
  have h3: "\<not> truthy_opt (cache_get (cache (startup ''key'' silent)) 5 (cacheKey ''hello''))"
    by (simp add: startup_def cache_get_def)
  have h4: "completion chatty ''hello'' = Some hi_reply" by (simp add: chatty_def)
  have h5: "parse_reply chatty (clean hi_reply) = Some (JArr [JObj [(''text'', JStr ''Hi'')]])"
    by (simp add: clean_chatty parse_reply_def chatty_def)
  have h6: "reply (chat (startup ''key'' silent) 5 chatty (Some ''hello''))
              = Sent 200 (JObj [(''messages'', hi_messages)])"
    by (simp add: chatty_chat)
  from chat_messages_complete [OF h1 h2 h3 h4 h5 h6] obtain out where
    "JObj [(''messages'', hi_messages)] = JObj [(''messages'', JArr out)]"
    "length out = length [JObj [(''text'', JStr ''Hi'')]]"
    "member (out ! 0) ''text'' = Some (JStr ''Hi'')"
    "member (out ! 0) ''facialExpression'' = Some (JStr ''default'')"
    "member (out ! 0) ''animation'' = Some (JStr ''Idle'')"
    by auto
  with h1 h2 h3 h4 h5 h6 show ?thesis by blast
qed

section \<open>Lip-sync: failures stay with their message, cached timing is reused\<close>

text \<open>
  C6.  Take a request on the completion path whose speech synthesis has succeeded for
  every message, and a message i without usable cached timing data for which the
  conversion or the extraction subprocess fails while its audio file can be read.  The
  reply is then said to hold message i with non-empty audio and an empty \<^verbatim>\<open>lipsync\<close>
  object.  The audio need not be non-empty: speech synthesis counts as succeeded on
  any ok answer, also one with an empty body, and then the file and its encoding are
  empty.  In the world \<open>hollow\<close> all of this is the case and the reply, a success, carries
  message 0 with the empty string as audio.
\<close>

theorem lipsync_failure_empty_audio_counterexample:
  "fst (prepare hollow ''hello'') = Some [hi_validated]
   \<and> lipSyncCacheKey hi_validated = Some ''lipsync_Hi''
   \<and> cache_get (cache (startup ''key'' silent)) 5 ''lipsync_Hi'' = None
   \<and> \<not> exec hollow (ffmpeg_cmd 0)
   \<and> readFile hollow (mp3Path 0) = Some []
   \<and> reply (chat (startup ''key'' silent) 5 hollow (Some ''hello''))
       = Sent 200 (JObj [(''messages'',
           JArr [JObj [(''text'', JStr ''Hi''), (''facialExpression'', JStr ''default''),
                       (''animation'', JStr ''Idle''), (''audio'', JStr []),
                       (''lipsync'', JObj [])]])])"
proof -
  have k: "lipSyncCacheKey hi_validated = Some ''lipsync_Hi''"
    by (simp add: lipSyncCacheKey_def hi_validated_def)
  have c: "cache_get (cache (startup ''key'' silent)) 5 ''lipsync_Hi'' = None"
    by (simp add: startup_def cache_get_def)
  have e: "\<not> exec hollow (ffmpeg_cmd 0)" by (simp add: hollow_def chatty_def)
  have r: "readFile hollow (mp3Path 0) = Some []" by (simp add: hollow_def mp3Path_0)
  have t: "fst (lipSyncOne (cache (startup ''key'' silent)) 5 hollow 0 hi_validated)
             = Some (assign (assign hi_validated ''audio'' (JStr (base64 []))) ''lipsync''
                       (JObj []))"
  proof -
    have nc: "\<not> truthy_opt (cache_get (cache (startup ''key'' silent)) 5 ''lipsync_Hi'')"
      by (simp only: c truthy_opt.simps not_False_eq_True)
    have d: "\<not> exec hollow (ffmpeg_cmd 0) \<or> \<not> exec hollow (rhubarb_cmd 0)"
      using e by blast
    show ?thesis by (rule lipSyncOne_failed [OF k nc d r])
  qed
  have "fst (postprocess (cache (startup ''key'' silent)) 5 hollow [hi_validated])
          = Some [[(''text'', JStr ''Hi''), (''facialExpression'', JStr ''default''),
                   (''animation'', JStr ''Idle''), (''audio'', JStr []),
                   (''lipsync'', JObj [])]]"
    using t by (simp add: postprocess_def lipSyncAll_def hi_validated_def)
  from pipeline_reply [OF hollow_prepare this, of "''hello''"]
  have "reply (chat (startup ''key'' silent) 5 hollow (Some ''hello''))
       = Sent 200 (JObj [(''messages'',
           JArr [JObj [(''text'', JStr ''Hi''), (''facialExpression'', JStr ''default''),
                       (''animation'', JStr ''Idle''), (''audio'', JStr []),
                       (''lipsync'', JObj [])]])])"
    by (simp add: chat_def uncached_def startup_def cache_get_def)
  with k c e r show ?thesis by (simp add: hollow_prepare)
qed

text \<open>
  C6, as it holds.  In the same situation, and provided no other message fails on its
  own (its cache key can be computed and its audio file can be read), the request is
  answered with success and with all messages; message i keeps its text and carries the
  base64 encoding of the bytes of its audio file, empty exactly when the file is empty,
  and an empty \<^verbatim>\<open>lipsync\<close> object.  The other messages are unaffected: whatever the
  outcome of the two subprocesses of message i, the request succeeds and every other
  message of the reply is the same.
\<close>

theorem lipsync_failure_isolated:
  assumes "userMessage \<noteq> []" and "lemonfoxApiKey s \<noteq> ''-''"
    and "\<not> truthy_opt (cache_get (cache s) now (cacheKey userMessage))"
    and prep: "prepare w userMessage = (Some validated, effs)"
    and i: "i < length validated"
    and key: "lipSyncCacheKey (validated ! i) = Some key"
    and nocache: "\<not> truthy_opt (cache_get (cache s) now key)"
    and fails: "\<not> exec w (ffmpeg_cmd i) \<or> \<not> exec w (rhubarb_cmd i)"
    and audio: "readFile w (mp3Path i) = Some bytes"
    and siblings: "\<forall>j<length validated. j \<noteq> i \<longrightarrow>
                     lipSyncCacheKey (validated ! j) \<noteq> None \<and> readFile w (mp3Path j) \<noteq> None"
  shows "\<exists>out. reply (chat s now w (Some userMessage)) = Sent 200 (JObj [(''messages'', JArr out)])
           \<and> length out = length validated
           \<and> member (out ! i) ''audio'' = Some (JStr (base64 bytes))
           \<and> (base64 bytes = [] \<longleftrightarrow> bytes = [])
           \<and> member (out ! i) ''lipsync'' = Some (JObj [])
           \<and> member (out ! i) ''text'' = map_of (validated ! i) ''text''
           \<and> (\<forall>b1 b2. \<exists>out'.
                 reply (chat s now (w\<lparr>exec := (exec w)(ffmpeg_cmd i := b1, rhubarb_cmd i := b2)\<rparr>)
                          (Some userMessage))
                   = Sent 200 (JObj [(''messages'', JArr out')])
                 \<and> length out' = length validated
                 \<and> (\<forall>j<length validated. j \<noteq> i \<longrightarrow> out' ! j = out ! j))"
proof -
  have reads: "\<forall>j<length validated.
                 lipSyncCacheKey (validated ! j) \<noteq> None \<and> readFile w (mp3Path j) \<noteq> None"
    using siblings key audio by (metis option.distinct(1))
  from pipeline_all_read [OF prep reads, of s now] obtain out where
    post: "fst (postprocess (cache s) now w validated) = Some out"
    and rep: "reply (pipeline s now w userMessage)
                = Sent 200 (JObj [(''messages'', JArr (map JObj out))])"
    by blast
  from postprocess_nth [OF post] have len: "length out = length validated"
    and task: "\<forall>j<length validated.
                 fst (lipSyncOne (cache s) now w j (validated ! j)) = Some (out ! j)"
    by blast+
  from task i lipSyncOne_failed [OF key nocache fails audio]
  have outi: "out ! i
      = assign (assign (validated ! i) ''audio'' (JStr (base64 bytes))) ''lipsync'' (JObj [])"
    by simp
  have nth: "map JObj out ! i = JObj (out ! i)" using i len by simp
  have own: "member (map JObj out ! i) ''audio'' = Some (JStr (base64 bytes))
             \<and> member (map JObj out ! i) ''lipsync'' = Some (JObj [])
             \<and> member (map JObj out ! i) ''text'' = map_of (validated ! i) ''text''"
    by (simp add: nth outi map_of_assign)
  have others: "\<exists>out'.
      reply (chat s now (w\<lparr>exec := (exec w)(ffmpeg_cmd i := b1, rhubarb_cmd i := b2)\<rparr>)
               (Some userMessage))
        = Sent 200 (JObj [(''messages'', JArr out')])
      \<and> length out' = length validated
      \<and> (\<forall>j<length validated. j \<noteq> i \<longrightarrow> out' ! j = map JObj out ! j)" for b1 b2
  proof -
    let ?w = "w\<lparr>exec := (exec w)(ffmpeg_cmd i := b1, rhubarb_cmd i := b2)\<rparr>"
    have prep': "prepare ?w userMessage = (Some validated, effs)"
      using prep by (simp add: prepare_exec_irrelevant)
    have reads': "\<forall>j<length validated.
                    lipSyncCacheKey (validated ! j) \<noteq> None \<and> readFile ?w (mp3Path j) \<noteq> None"
      using reads by simp
    from pipeline_all_read [OF prep' reads', of s now] obtain out' where
      post': "fst (postprocess (cache s) now ?w validated) = Some out'"
      and rep': "reply (pipeline s now ?w userMessage)
                   = Sent 200 (JObj [(''messages'', JArr (map JObj out'))])"
      by blast
    from postprocess_nth [OF post'] have len': "length out' = length validated"
      and task': "\<forall>j<length validated.
                    fst (lipSyncOne (cache s) now ?w j (validated ! j)) = Some (out' ! j)"
      by blast+
    have "map JObj out' ! j = map JObj out ! j" if j: "j < length validated" "j \<noteq> i" for j
    proof -
      have "exec ?w (ffmpeg_cmd j) = exec w (ffmpeg_cmd j)"
        using j(2) ffmpeg_cmd_inj [of j i] ffmpeg_not_rhubarb [of j i] by auto
      moreover have "exec ?w (rhubarb_cmd j) = exec w (rhubarb_cmd j)"
        using j(2) rhubarb_cmd_inj [of j i] ffmpeg_not_rhubarb [of i j] by auto
      ultimately have eq: "lipSyncOne (cache s) now ?w j (validated ! j)
                         = lipSyncOne (cache s) now w j (validated ! j)"
        by (intro lipSyncOne_cong) simp_all
      from task j(1) have a: "fst (lipSyncOne (cache s) now w j (validated ! j)) = Some (out ! j)"
        by blast
      from task' j(1) have "fst (lipSyncOne (cache s) now ?w j (validated ! j)) = Some (out' ! j)"
        by blast
      with a have "out' ! j = out ! j" by (simp only: eq option.inject)
      with j(1) len len' show ?thesis by simp
    qed
    moreover have "chat s now ?w (Some userMessage) = pipeline s now ?w userMessage"
      using assms(1-3) by (intro chat_pipeline) simp_all
    ultimately show ?thesis
      using rep' len' by (intro exI [of _ "map JObj out'"]) simp
  qed
  have "chat s now w (Some userMessage) = pipeline s now w userMessage"
    using assms(1-3) by (intro chat_pipeline)
  with rep len own others show ?thesis
    by (intro exI [of _ "map JObj out"]) (simp add: base64_Nil_iff)
qed

theorem lipsync_failure_isolated_witness:
  "''hello'' \<noteq> [] \<and> lemonfoxApiKey (startup ''key'' silent) \<noteq> ''-''
   \<and> \<not> truthy_opt (cache_get (cache (startup ''key'' silent)) 5 (cacheKey ''hello''))
   \<and> fst (prepare duet ''hello'') = Some [hi_validated, yo_validated]
   \<and> 0 < length [hi_validated, yo_validated]
   \<and> lipSyncCacheKey ([hi_validated, yo_validated] ! 0) = Some ''lipsync_Hi''
   \<and> \<not> truthy_opt (cache_get (cache (startup ''key'' silent)) 5 ''lipsync_Hi'')
   \<and> \<not> exec duet (ffmpeg_cmd 0)
   \<and> readFile duet (mp3Path 0) = Some ''abc''
   \<and> lipSyncCacheKey ([hi_validated, yo_validated] ! 1) \<noteq> None
   \<and> readFile duet (mp3Path 1) \<noteq> None
   \<and> (\<exists>out. reply (chat (startup ''key'' silent) 5 duet (Some ''hello''))
                = Sent 200 (JObj [(''messages'', JArr out)])
          \<and> length out = length [hi_validated, yo_validated]
          \<and> member (out ! 0) ''audio'' = Some (JStr (base64 ''abc''))
          \<and> member (out ! 0) ''lipsync'' = Some (JObj []))"
proof -
  have h1: "''hello'' \<noteq> []" by simp
  have h2: "lemonfoxApiKey (startup ''key'' silent) \<noteq> ''-''" by (simp add: startup_def)
  have h3: "\<not> truthy_opt (cache_get (cache (startup ''key'' silent)) 5 (cacheKey ''hello''))"
    by (simp add: startup_def cache_get_def)
  have h4: "prepare duet ''hello'' = (Some [hi_validated, yo_validated],
      [CompletionCall ''hello'', SpeechCall (Some (JStr ''Hi'')),
       WriteFile ''audios/message_0.mp3'', SpeechCall (Some (JStr ''Yo'')),
       WriteFile ''audios/message_1.mp3''])"
    by (rule duet_prepare)
  have h5: "0 < length [hi_validated, yo_validated]" by simp
  have h6: "lipSyncCacheKey ([hi_validated, yo_validated] ! 0) = Some ''lipsync_Hi''"
    by (simp add: duet_keys)
  have h7: "\<not> truthy_opt (cache_get (cache (startup ''key'' silent)) 5 ''lipsync_Hi'')"
    by (simp add: startup_def cache_get_def)
  have e: "\<not> exec duet (ffmpeg_cmd 0)" by (simp add: duet_def)
  then have h8: "\<not> exec duet (ffmpeg_cmd 0) \<or> \<not> exec duet (rhubarb_cmd 0)" by simp
  have h9: "readFile duet (mp3Path 0) = Some ''abc''" by (simp add: duet_def mp3Path_0)
  have h10: "\<forall>j<length [hi_validated, yo_validated]. j \<noteq> 0 \<longrightarrow>
               lipSyncCacheKey ([hi_validated, yo_validated] ! j) \<noteq> None
               \<and> readFile duet (mp3Path j) \<noteq> None"
    using duet_reads by blast
  from lipsync_failure_isolated [OF h1 h2 h3 h4 h5 h6 h7 h8 h9 h10]
  obtain out where
    "reply (chat (startup ''key'' silent) 5 duet (Some ''hello''))
       = Sent 200 (JObj [(''messages'', JArr out)])"
    "length out = length [hi_validated, yo_validated]"
    "member (out ! 0) ''audio'' = Some (JStr (base64 ''abc''))"
    "member (out ! 0) ''lipsync'' = Some (JObj [])"
    by blast
  then have "\<exists>out. reply (chat (startup ''key'' silent) 5 duet (Some ''hello''))
                = Sent 200 (JObj [(''messages'', JArr out)])
          \<and> length out = length [hi_validated, yo_validated]
          \<and> member (out ! 0) ''audio'' = Some (JStr (base64 ''abc''))
          \<and> member (out ! 0) ''lipsync'' = Some (JObj [])"
    by blast
  moreover have "fst (prepare duet ''hello'') = Some [hi_validated, yo_validated]"
    by (simp add: h4)
  moreover have "lipSyncCacheKey ([hi_validated, yo_validated] ! 1) \<noteq> None"
    and "readFile duet (mp3Path 1) \<noteq> None"
    using duet_reads [of 1] by simp_all
  ultimately show ?thesis using h1 h2 h3 h5 h6 h7 e h9 by blast
qed



end
